theory Spec2Isabelle
  imports Main "HOL-Library.Char_ord" "HOL-Library.List_Lexorder" "HOL-Library.Product_Lexorder"
    "HOL-Library.Multiset"
begin

section \<open>Exceptions\<close>

text \<open>
  The exceptions that the module \<^verbatim>\<open>database.py\<close> can meet. A function that can raise
  returns \<open>py_error + 'a\<close>; \<open>Inl e\<close> is the exception \<open>e\<close> leaving the function.
\<close>

datatype py_error = IntegrityError | OperationalError | OverflowError | ValueError | TypeError

definition bind_err :: "py_error + 'a \<Rightarrow> ('a \<Rightarrow> py_error + 'b) \<Rightarrow> py_error + 'b" where
  "bind_err r f = (case r of Inl e \<Rightarrow> Inl e | Inr v \<Rightarrow> f v)"

section \<open>Datetimes of the Python standard library\<close>

text \<open>
  A \<^verbatim>\<open>datetime\<close> holds seven number fields and its \<^verbatim>\<open>tzinfo\<close>. \<open>tzinfo\<close> is \<open>None\<close> for a
  naive datetime (what \<^verbatim>\<open>datetime.now()\<close> and the constructor without a zone give), and
  \<open>Some off\<close> for an aware one whose zone is a \<^verbatim>\<open>datetime.timezone\<close>, a fixed offset of
  \<open>off\<close> microseconds from UTC: \<^verbatim>\<open>timezone.utc\<close>, the zone of the timestamps a chat library
  hands over, is \<open>Some 0\<close>. Zones whose offset depends on the date are left out. Python
  only builds values whose fields are in range (\<open>valid_datetime\<close>); the constructors raise
  \<^verbatim>\<open>ValueError\<close> otherwise.
\<close>

record datetime =
  year :: int
  month :: int
  day :: int
  hour :: int
  minute :: int
  second :: int
  microsecond :: int
  tzinfo :: "int option"

definition US_PER_DAY :: int where "US_PER_DAY = 86400000000"

definition MINYEAR :: int where "MINYEAR = 1"
definition MAXYEAR :: int where "MAXYEAR = 9999"
definition MAXORDINAL :: int where "MAXORDINAL = 3652059"

definition is_leap :: "int \<Rightarrow> bool" where
  "is_leap y = (y mod 4 = 0 \<and> (y mod 100 \<noteq> 0 \<or> y mod 400 = 0))"

definition DAYS_IN_MONTH :: "int list" where
  "DAYS_IN_MONTH = [0, 31, 28, 31, 30, 31, 30, 31, 31, 30, 31, 30, 31]"

definition DAYS_BEFORE_MONTH :: "int list" where
  "DAYS_BEFORE_MONTH = [0, 0, 31, 59, 90, 120, 151, 181, 212, 243, 273, 304, 334]"

definition days_in_month :: "int \<Rightarrow> int \<Rightarrow> int" where
  "days_in_month y m = (if m = 2 \<and> is_leap y then 29 else DAYS_IN_MONTH ! nat m)"

definition days_before_year :: "int \<Rightarrow> int" where
  "days_before_year yr = (let y = yr - 1 in y * 365 + y div 4 - y div 100 + y div 400)"

definition days_before_month :: "int \<Rightarrow> int \<Rightarrow> int" where
  "days_before_month y m = DAYS_BEFORE_MONTH ! nat m + (if m > 2 \<and> is_leap y then 1 else 0)"

definition ymd2ord :: "int \<Rightarrow> int \<Rightarrow> int \<Rightarrow> int" where
  "ymd2ord y m d = days_before_year y + days_before_month y m + d"

definition valid_datetime :: "datetime \<Rightarrow> bool" where
  "valid_datetime d =
     (MINYEAR \<le> year d \<and> year d \<le> MAXYEAR \<and> 1 \<le> month d \<and> month d \<le> 12 \<and>
      1 \<le> day d \<and> day d \<le> days_in_month (year d) (month d) \<and>
      0 \<le> hour d \<and> hour d < 24 \<and> 0 \<le> minute d \<and> minute d < 60 \<and>
      0 \<le> second d \<and> second d < 60 \<and> 0 \<le> microsecond d \<and> microsecond d < 1000000 \<and>
      (case tzinfo d of None \<Rightarrow> True | Some off \<Rightarrow> - US_PER_DAY < off \<and> off < US_PER_DAY))"

text \<open>
  The constructor \<^verbatim>\<open>datetime(y, m, d, hh, mm, ss, us, tzinfo)\<close>; the module calls it
  without a zone, which is \<open>None\<close>.
\<close>

definition mk_datetime ::
  "int \<Rightarrow> int \<Rightarrow> int \<Rightarrow> int \<Rightarrow> int \<Rightarrow> int \<Rightarrow> int \<Rightarrow> int option \<Rightarrow> py_error + datetime" where
  "mk_datetime y m d hh mm ss us tz =
     (let r = \<lparr>year = y, month = m, day = d, hour = hh, minute = mm, second = ss,
               microsecond = us, tzinfo = tz\<rparr>
      in if valid_datetime r then Inr r else Inl ValueError)"

text \<open>
  \<^verbatim>\<open>_ord2ymd\<close> of \<^verbatim>\<open>datetime.py\<close>: the date of a proleptic Gregorian ordinal (day 1 is
  0001-01-01), by cycles of 400, 100, 4 and 1 years.
\<close>

definition ord2ymd :: "int \<Rightarrow> int \<times> int \<times> int" where
  "ord2ymd n0 =
     (let n = n0 - 1;
          n400 = n div 146097; n = n mod 146097;
          n100 = n div 36524; n = n mod 36524;
          n4 = n div 1461; n = n mod 1461;
          n1 = n div 365; n = n mod 365;
          yr = n400 * 400 + 1 + n100 * 100 + n4 * 4 + n1
      in if n1 = 4 \<or> n100 = 4 then (yr - 1, 12, 31)
         else
           let leapyear = (n1 = 3 \<and> (n4 \<noteq> 24 \<or> n100 = 3));
               m = (n + 50) div 32;
               preceding = DAYS_BEFORE_MONTH ! nat m + (if m > 2 \<and> leapyear then 1 else 0)
           in if preceding > n
              then let m' = m - 1;
                       preceding' = preceding -
                         (DAYS_IN_MONTH ! nat m' + (if m' = 2 \<and> leapyear then 1 else 0))
                   in (yr, m', n - preceding' + 1)
              else (yr, m, n - preceding + 1))"

text \<open>
  A \<^verbatim>\<open>timedelta\<close> is a signed number of microseconds whose day part has at most nine
  digits; building one outside that range raises \<^verbatim>\<open>OverflowError\<close>. The arguments are
  the keywords the module uses: \<^verbatim>\<open>days\<close>, \<^verbatim>\<open>hours\<close>, \<^verbatim>\<open>minutes\<close>, \<^verbatim>\<open>seconds\<close> and
  \<^verbatim>\<open>microseconds\<close>.
\<close>

definition timedelta :: "int \<Rightarrow> int \<Rightarrow> int \<Rightarrow> int \<Rightarrow> int \<Rightarrow> py_error + int" where
  "timedelta days hours minutes seconds microseconds =
     (let us = (((days * 24 + hours) * 60 + minutes) * 60 + seconds) * 1000000 + microseconds
      in if \<bar>us div US_PER_DAY\<bar> > 999999999 then Inl OverflowError else Inr us)"

text \<open>
  \<^verbatim>\<open>datetime + timedelta\<close>: the sum is taken on the microsecond count since the start of
  ordinal day 0, on the fields as they stand; the zone is kept. A day outside
  \<open>1 .. MAXORDINAL\<close> raises \<^verbatim>\<open>OverflowError\<close>.
\<close>

definition to_us :: "datetime \<Rightarrow> int" where
  "to_us d = ymd2ord (year d) (month d) (day d) * US_PER_DAY +
             ((hour d * 60 + minute d) * 60 + second d) * 1000000 + microsecond d"

definition of_us :: "int \<Rightarrow> int option \<Rightarrow> datetime" where
  "of_us t tz =
     (let days = t div US_PER_DAY; rest = t mod US_PER_DAY;
          secs = rest div 1000000;
          (y, m, d) = ord2ymd days
      in \<lparr>year = y, month = m, day = d, hour = secs div 3600,
          minute = (secs mod 3600) div 60, second = secs mod 60,
          microsecond = rest mod 1000000, tzinfo = tz\<rparr>)"

definition dt_add :: "datetime \<Rightarrow> int \<Rightarrow> py_error + datetime" where
  "dt_add d delta =
     (let t = to_us d + delta
      in if 0 < t div US_PER_DAY \<and> t div US_PER_DAY \<le> MAXORDINAL
         then Inr (of_us t (tzinfo d))
         else Inl OverflowError)"

definition dt_sub :: "datetime \<Rightarrow> int \<Rightarrow> py_error + datetime" where
  "dt_sub d delta = dt_add d (- delta)"

section \<open>ISO-8601 text\<close>

text \<open>
  \<^verbatim>\<open>isoformat()\<close>: \<^verbatim>\<open>YYYY-MM-DDTHH:MM:SS\<close>, followed by \<^verbatim>\<open>.ffffff\<close> when the
  microsecond is not zero, followed for an aware datetime by its offset, \<^verbatim>\<open>+HH:MM\<close> or
  \<^verbatim>\<open>-HH:MM\<close>, with \<^verbatim>\<open>:SS\<close> and \<^verbatim>\<open>.ffffff\<close> when the offset has seconds or microseconds
  (\<^verbatim>\<open>_format_offset\<close>). \<open>zpad k n\<close> is \<^verbatim>\<open>%0kd\<close> on a number of at most \<open>k\<close> digits, which
  every field of a valid datetime is.
\<close>

definition digit_char :: "int \<Rightarrow> char" where
  "digit_char n = char_of (48 + n)"

fun zpad :: "nat \<Rightarrow> int \<Rightarrow> string" where
  "zpad 0 n = []"
| "zpad (Suc k) n = zpad k (n div 10) @ [digit_char (n mod 10)]"

definition format_offset :: "int option \<Rightarrow> string" where
  "format_offset tz =
     (case tz of
        None \<Rightarrow> []
      | Some off \<Rightarrow>
          let sign = (if off < 0 then CHR ''-'' else CHR ''+'');
              a = \<bar>off\<bar>;
              hh = a div 3600000000; r1 = a mod 3600000000;
              mm = r1 div 60000000; r2 = r1 mod 60000000;
              ss = r2 div 1000000; us = r2 mod 1000000
          in sign # zpad 2 hh @ '':'' @ zpad 2 mm @
             (if ss \<noteq> 0 \<or> us \<noteq> 0
              then '':'' @ zpad 2 ss @ (if us \<noteq> 0 then ''.'' @ zpad 6 us else [])
              else []))"

definition isoformat :: "datetime \<Rightarrow> string" where
  "isoformat d =
     zpad 4 (year d) @ ''-'' @ zpad 2 (month d) @ ''-'' @ zpad 2 (day d) @ ''T'' @
     zpad 2 (hour d) @ '':'' @ zpad 2 (minute d) @ '':'' @ zpad 2 (second d) @
     (if microsecond d \<noteq> 0 then ''.'' @ zpad 6 (microsecond d) else []) @
     format_offset (tzinfo d)"

text \<open>
  \<^verbatim>\<open>datetime.fromisoformat\<close>, on the shapes that \<open>isoformat\<close> writes: the date and the
  time to the second, six digits of microseconds or none, and an offset (hours and
  minutes, then seconds, then six digits of microseconds) or none; any character is
  accepted where \<open>isoformat\<close> writes \<^verbatim>\<open>T\<close>. An offset of a day or more is refused, as the
  constructor of \<^verbatim>\<open>timezone\<close> does. Every other text is a \<^verbatim>\<open>ValueError\<close> here, also the
  shorter shapes that Python reads as well: the store never holds one, since
  \<open>store_message\<close> is its only writer (see \<open>parseable_db\<close>).
\<close>

definition digit_val :: "char \<Rightarrow> int option" where
  "digit_val c = (let n = of_char c in if (48::int) \<le> n \<and> n \<le> 57 then Some (n - 48) else None)"

fun parse_digits :: "int \<Rightarrow> string \<Rightarrow> int option" where
  "parse_digits acc [] = Some acc"
| "parse_digits acc (c # cs) =
     (case digit_val c of None \<Rightarrow> None | Some v \<Rightarrow> parse_digits (acc * 10 + v) cs)"

definition parse_num :: "nat \<Rightarrow> string \<Rightarrow> (int \<times> string) option" where
  "parse_num k s =
     (if length s < k then None
      else case parse_digits 0 (take k s) of None \<Rightarrow> None | Some n \<Rightarrow> Some (n, drop k s))"

definition expect :: "char \<Rightarrow> string \<Rightarrow> string option" where
  "expect c s = (case s of [] \<Rightarrow> None | x # xs \<Rightarrow> if x = c then Some xs else None)"

definition skip_char :: "string \<Rightarrow> string option" where
  "skip_char s = (case s of [] \<Rightarrow> None | x # xs \<Rightarrow> Some xs)"

definition parse_fraction :: "string \<Rightarrow> (int \<times> string) option" where
  "parse_fraction s =
     (case s of
        [] \<Rightarrow> Some (0, [])
      | c # r \<Rightarrow> if c = CHR ''.'' then parse_num 6 r else Some (0, s))"

definition parse_offset :: "string \<Rightarrow> int option" where
  "parse_offset s0 =
     Option.bind (parse_num 2 s0) (\<lambda>(hh, s).
     Option.bind (expect CHR '':'' s) (\<lambda>s.
     Option.bind (parse_num 2 s) (\<lambda>(mm, s).
       if s = [] then Some (((hh * 60 + mm) * 60) * 1000000)
       else Option.bind (expect CHR '':'' s) (\<lambda>s.
            Option.bind (parse_num 2 s) (\<lambda>(ss, s).
            Option.bind (parse_fraction s) (\<lambda>(us, s).
              if s = [] then Some (((hh * 60 + mm) * 60 + ss) * 1000000 + us) else None))))))"

definition parse_tz :: "string \<Rightarrow> int option option" where
  "parse_tz s =
     (case s of
        [] \<Rightarrow> Some None
      | c # r \<Rightarrow>
          if c = CHR ''+'' \<or> c = CHR ''-'' then
            Option.bind (parse_offset r) (\<lambda>a.
              if a < US_PER_DAY then Some (Some (if c = CHR ''-'' then - a else a)) else None)
          else None)"

definition parse_iso ::
  "string \<Rightarrow> (int \<times> int \<times> int \<times> int \<times> int \<times> int \<times> int \<times> int option) option" where
  "parse_iso s0 =
     Option.bind (parse_num 4 s0) (\<lambda>(y, s).
     Option.bind (expect CHR ''-'' s) (\<lambda>s.
     Option.bind (parse_num 2 s) (\<lambda>(m, s).
     Option.bind (expect CHR ''-'' s) (\<lambda>s.
     Option.bind (parse_num 2 s) (\<lambda>(d, s).
     Option.bind (skip_char s) (\<lambda>s.
     Option.bind (parse_num 2 s) (\<lambda>(hh, s).
     Option.bind (expect CHR '':'' s) (\<lambda>s.
     Option.bind (parse_num 2 s) (\<lambda>(mm, s).
     Option.bind (expect CHR '':'' s) (\<lambda>s.
     Option.bind (parse_num 2 s) (\<lambda>(ss, s).
     Option.bind (parse_fraction s) (\<lambda>(us, s).
     Option.bind (parse_tz s) (\<lambda>tz.
       Some (y, m, d, hh, mm, ss, us, tz))))))))))))))"

definition fromisoformat :: "string \<Rightarrow> py_error + datetime" where
  "fromisoformat s =
     (case parse_iso s of
        None \<Rightarrow> Inl ValueError
      | Some (y, m, d, hh, mm, ss, us, tz) \<Rightarrow> mk_datetime y m d hh mm ss us tz)"

section \<open>The database\<close>

text \<open>
  The two tables of the schema, each a list of rows in insertion (rowid) order. A
  \<^verbatim>\<open>TEXT\<close> column holds the bytes of its UTF-8 text, which is what the engine compares
  (\<^verbatim>\<open>memcmp\<close>, the order of \<open>string\<close> here); the \<^verbatim>\<open>TIMESTAMP\<close> columns hold the ISO
  text that the module writes. \<open>summary_seq\<close> is the \<^verbatim>\<open>AUTOINCREMENT\<close> counter.
\<close>

record message_row =
  m_id :: string
  m_author_id :: string
  m_author_name :: string
  m_channel_id :: string
  m_channel_name :: string
  m_guild_id :: "string option"
  m_guild_name :: "string option"
  m_content :: string
  m_created_at :: string
  m_is_bot :: int
  m_is_command :: int
  m_command_type :: "string option"

record summary_row =
  s_id :: int
  s_channel_id :: string
  s_channel_name :: string
  s_guild_id :: "string option"
  s_guild_name :: "string option"
  s_date :: string
  s_summary_text :: string
  s_message_count :: int
  s_active_users :: int
  s_active_users_list :: string
  s_created_at :: string
  s_metadata :: "string option"

record database =
  messages :: "message_row list"
  channel_summaries :: "summary_row list"
  summary_seq :: int

text \<open>
  What the module cannot decide about the engine is a parameter of every operation:
  \<open>fault\<close> is the error the engine raises during this call (connecting, executing or
  committing; the scoped transaction then leaves the tables as they were), and \<open>bare_row\<close>
  is the row of a group from which the engine reads the columns of a \<^verbatim>\<open>GROUP BY\<close> query
  that are not aggregated, a choice SQLite leaves open.
\<close>

record engine =
  fault :: "py_error option"
  bare_row :: "message_row list \<Rightarrow> message_row"

definition get_connection :: "engine \<Rightarrow> py_error + unit" where
  "get_connection eng = (case fault eng of None \<Rightarrow> Inr () | Some e \<Rightarrow> Inl e)"

text \<open>A Python loop that builds a list and stops at the first exception.\<close>

fun map_err :: "('a \<Rightarrow> py_error + 'b) \<Rightarrow> 'a list \<Rightarrow> py_error + 'b list" where
  "map_err f [] = Inr []"
| "map_err f (x # xs) =
     (case f x of Inl e \<Rightarrow> Inl e
      | Inr y \<Rightarrow> (case map_err f xs of Inl e \<Rightarrow> Inl e | Inr ys \<Rightarrow> Inr (y # ys)))"

text \<open>Python's \<^verbatim>\<open>bool(n)\<close> on an integer column.\<close>

definition py_bool :: "int \<Rightarrow> bool" where
  "py_bool n = (n \<noteq> 0)"

subsection \<open>Message ingestion\<close>

text \<open>\<^verbatim>\<open>INSERT INTO messages\<close>: the primary key \<open>id\<close> rejects a second row of the same id.\<close>

definition insert_message :: "database \<Rightarrow> message_row \<Rightarrow> py_error + database" where
  "insert_message db row =
     (if m_id row \<in> set (map m_id (messages db)) then Inl IntegrityError
      else Inr (db\<lparr>messages := messages db @ [row]\<rparr>))"

text \<open>The \<^verbatim>\<open>try\<close> block of \<open>store_message\<close>; the arguments are in the order of the source.\<close>

definition store_message_try ::
  "engine \<Rightarrow> database \<Rightarrow> string \<Rightarrow> string \<Rightarrow> string \<Rightarrow> string \<Rightarrow> string \<Rightarrow> string \<Rightarrow> datetime \<Rightarrow>
   string option \<Rightarrow> string option \<Rightarrow> bool \<Rightarrow> bool \<Rightarrow> string option \<Rightarrow> py_error + database" where
  "store_message_try eng db message_id author_id author_name channel_id channel_name content
     created_at guild_id guild_name is_bot is_command command_type =
     bind_err (get_connection eng) (\<lambda>_.
       insert_message db
         \<lparr>m_id = message_id, m_author_id = author_id, m_author_name = author_name,
          m_channel_id = channel_id, m_channel_name = channel_name, m_guild_id = guild_id,
          m_guild_name = guild_name, m_content = content,
          m_created_at = isoformat created_at,
          m_is_bot = (if is_bot then 1 else 0), m_is_command = (if is_command then 1 else 0),
          m_command_type = command_type\<rparr>)"

definition store_message ::
  "engine \<Rightarrow> database \<Rightarrow> string \<Rightarrow> string \<Rightarrow> string \<Rightarrow> string \<Rightarrow> string \<Rightarrow> string \<Rightarrow> datetime \<Rightarrow>
   string option \<Rightarrow> string option \<Rightarrow> bool \<Rightarrow> bool \<Rightarrow> string option \<Rightarrow>
   py_error + (bool \<times> database)" where
  "store_message eng db message_id author_id author_name channel_id channel_name content
     created_at guild_id guild_name is_bot is_command command_type =
     (case store_message_try eng db message_id author_id author_name channel_id channel_name
             content created_at guild_id guild_name is_bot is_command command_type of
        Inr db' \<Rightarrow> Inr (True, db')
      | Inl e \<Rightarrow> (if e = IntegrityError then Inr (False, db) else Inr (False, db)))"

subsection \<open>Counts\<close>

definition get_message_count_try :: "engine \<Rightarrow> database \<Rightarrow> py_error + int" where
  "get_message_count_try eng db =
     bind_err (get_connection eng) (\<lambda>_. Inr (int (length (messages db))))"

definition get_message_count :: "engine \<Rightarrow> database \<Rightarrow> py_error + int" where
  "get_message_count eng db =
     (case get_message_count_try eng db of Inr n \<Rightarrow> Inr n | Inl e \<Rightarrow> Inr 0)"

definition get_user_message_count_try :: "engine \<Rightarrow> database \<Rightarrow> string \<Rightarrow> py_error + int" where
  "get_user_message_count_try eng db user_id =
     bind_err (get_connection eng) (\<lambda>_.
       Inr (int (length (filter (\<lambda>r. m_author_id r = user_id) (messages db)))))"

definition get_user_message_count :: "engine \<Rightarrow> database \<Rightarrow> string \<Rightarrow> py_error + int" where
  "get_user_message_count eng db user_id =
     (case get_user_message_count_try eng db user_id of Inr n \<Rightarrow> Inr n | Inl e \<Rightarrow> Inr 0)"

subsection \<open>Time-windowed retrieval\<close>

record message_projection =
  p_author_name :: string
  p_content :: string
  p_created_at :: datetime
  p_is_bot :: bool
  p_is_command :: bool

definition projection_at :: "message_row \<Rightarrow> datetime \<Rightarrow> message_projection" where
  "projection_at row dt =
     \<lparr>p_author_name = m_author_name row, p_content = m_content row, p_created_at = dt,
      p_is_bot = py_bool (m_is_bot row), p_is_command = py_bool (m_is_command row)\<rparr>"

text \<open>One turn of the loop over \<^verbatim>\<open>cursor.fetchall()\<close>: the row as a dictionary.\<close>

definition row_to_message :: "message_row \<Rightarrow> py_error + message_projection" where
  "row_to_message row =
     bind_err (fromisoformat (m_created_at row)) (\<lambda>dt. Inr (projection_at row dt))"

text \<open>
  The \<^verbatim>\<open>try\<close> block of \<open>get_channel_messages_for_timeframe\<close>. \<^verbatim>\<open>BETWEEN\<close> is inclusive
  on both sides; \<^verbatim>\<open>ORDER BY\<close> is modelled by the stable \<open>sort_key\<close> on the table in rowid
  order (the engine leaves the order of equal keys open, and no theorem below depends
  on it).
\<close>

definition get_channel_messages_for_timeframe_try ::
  "engine \<Rightarrow> database \<Rightarrow> string \<Rightarrow> datetime \<Rightarrow> datetime \<Rightarrow> py_error + message_projection list" where
  "get_channel_messages_for_timeframe_try eng db channel_id start_date end_date =
     bind_err (timedelta 0 5 0 0 0) (\<lambda>h5.
     bind_err (dt_add start_date h5) (\<lambda>s.
     bind_err (dt_add end_date h5) (\<lambda>e.
       let start_date_utc = isoformat s; end_date_utc = isoformat e
       in bind_err (get_connection eng) (\<lambda>_.
            map_err row_to_message
              (sort_key m_created_at
                 (filter (\<lambda>r. m_channel_id r = channel_id \<and>
                              start_date_utc \<le> m_created_at r \<and> m_created_at r \<le> end_date_utc)
                    (messages db)))))))"

definition get_channel_messages_for_timeframe ::
  "engine \<Rightarrow> database \<Rightarrow> string \<Rightarrow> datetime \<Rightarrow> datetime \<Rightarrow> py_error + message_projection list" where
  "get_channel_messages_for_timeframe eng db channel_id start_date end_date =
     (case get_channel_messages_for_timeframe_try eng db channel_id start_date end_date of
        Inr ms \<Rightarrow> Inr ms
      | Inl e \<Rightarrow> Inr [])"

text \<open>The two wrappers compute their bounds outside any \<^verbatim>\<open>try\<close>.\<close>

definition get_channel_messages_for_day ::
  "engine \<Rightarrow> database \<Rightarrow> string \<Rightarrow> datetime \<Rightarrow> py_error + message_projection list" where
  "get_channel_messages_for_day eng db channel_id date =
     bind_err (mk_datetime (year date) (month date) (day date) 0 0 0 0 None)
       (\<lambda>start_date_local.
     bind_err (mk_datetime (year date) (month date) (day date) 23 59 59 999999 None)
       (\<lambda>end_date_local.
          get_channel_messages_for_timeframe eng db channel_id start_date_local end_date_local))"

definition get_channel_messages_for_week ::
  "engine \<Rightarrow> database \<Rightarrow> string \<Rightarrow> datetime \<Rightarrow> py_error + message_projection list" where
  "get_channel_messages_for_week eng db channel_id start_date =
     bind_err (timedelta 6 23 59 59 999999) (\<lambda>td.
     bind_err (dt_add start_date td) (\<lambda>end_date.
       get_channel_messages_for_timeframe eng db channel_id start_date end_date))"

record range_message =
  rm_id :: string
  rm_author_id :: string
  rm_author_name :: string
  rm_content :: string
  rm_created_at :: datetime
  rm_is_bot :: bool
  rm_is_command :: bool

record channel_group =
  g_channel_id :: string
  g_channel_name :: string
  g_guild_id :: "string option"
  g_guild_name :: "string option"
  g_messages :: "range_message list"

definition range_message_at :: "message_row \<Rightarrow> datetime \<Rightarrow> range_message" where
  "range_message_at row dt =
     \<lparr>rm_id = m_id row, rm_author_id = m_author_id row, rm_author_name = m_author_name row,
      rm_content = m_content row, rm_created_at = dt, rm_is_bot = py_bool (m_is_bot row),
      rm_is_command = py_bool (m_is_command row)\<rparr>"

text \<open>
  The dictionary \<^verbatim>\<open>messages_by_channel\<close> keeps its keys in insertion order: an association
  list. \<open>group_step\<close> is the body of the grouping loop, \<open>group_rows\<close> the loop.
\<close>

definition new_group :: "message_row \<Rightarrow> channel_group" where
  "new_group row =
     \<lparr>g_channel_id = m_channel_id row, g_channel_name = m_channel_name row,
      g_guild_id = m_guild_id row, g_guild_name = m_guild_name row, g_messages = []\<rparr>"

definition append_message ::
  "(string \<times> channel_group) list \<Rightarrow> string \<Rightarrow> range_message \<Rightarrow> (string \<times> channel_group) list" where
  "append_message d k msg =
     map (\<lambda>(k', g). if k' = k then (k', g\<lparr>g_messages := g_messages g @ [msg]\<rparr>) else (k', g)) d"

definition group_step ::
  "(string \<times> channel_group) list \<Rightarrow> message_row \<Rightarrow> py_error + (string \<times> channel_group) list" where
  "group_step messages_by_channel row =
     (let channel_id = m_channel_id row;
          d = (if channel_id \<notin> set (map fst messages_by_channel)
               then messages_by_channel @ [(channel_id, new_group row)]
               else messages_by_channel)
      in bind_err (fromisoformat (m_created_at row)) (\<lambda>dt.
           Inr (append_message d channel_id (range_message_at row dt))))"

fun group_rows ::
  "(string \<times> channel_group) list \<Rightarrow> message_row list \<Rightarrow>
   py_error + (string \<times> channel_group) list" where
  "group_rows d [] = Inr d"
| "group_rows d (row # rows) =
     (case group_step d row of Inl e \<Rightarrow> Inl e | Inr d' \<Rightarrow> group_rows d' rows)"

definition get_messages_for_time_range_try ::
  "engine \<Rightarrow> database \<Rightarrow> datetime \<Rightarrow> datetime \<Rightarrow> py_error + (string \<times> channel_group) list" where
  "get_messages_for_time_range_try eng db start_time end_time =
     (let start_date_str = isoformat start_time; end_date_str = isoformat end_time
      in bind_err (get_connection eng) (\<lambda>_.
           group_rows []
             (sort_key (\<lambda>r. (m_channel_id r, m_created_at r))
                (filter (\<lambda>r. start_date_str \<le> m_created_at r \<and> m_created_at r \<le> end_date_str)
                   (messages db)))))"

definition get_messages_for_time_range ::
  "engine \<Rightarrow> database \<Rightarrow> datetime \<Rightarrow> datetime \<Rightarrow> py_error + (string \<times> channel_group) list" where
  "get_messages_for_time_range eng db start_time end_time =
     (case get_messages_for_time_range_try eng db start_time end_time of
        Inr d \<Rightarrow> Inr d
      | Inl e \<Rightarrow> Inr [])"

subsection \<open>Retention pruning\<close>

definition delete_messages_older_than_try ::
  "engine \<Rightarrow> database \<Rightarrow> datetime \<Rightarrow> py_error + (int \<times> database)" where
  "delete_messages_older_than_try eng db cutoff_time =
     (let cutoff_time_str = isoformat cutoff_time
      in bind_err (get_connection eng) (\<lambda>_.
           let count = int (length (filter (\<lambda>r. m_created_at r < cutoff_time_str) (messages db)));
               db' = db\<lparr>messages :=
                         filter (\<lambda>r. \<not> m_created_at r < cutoff_time_str) (messages db)\<rparr>
           in Inr (count, db')))"

definition delete_messages_older_than ::
  "engine \<Rightarrow> database \<Rightarrow> datetime \<Rightarrow> py_error + (int \<times> database)" where
  "delete_messages_older_than eng db cutoff_time =
     (case delete_messages_older_than_try eng db cutoff_time of
        Inr r \<Rightarrow> Inr r
      | Inl e \<Rightarrow> Inr (0, db))"

subsection \<open>Active channels\<close>

record active_channel =
  ac_channel_id :: string
  ac_channel_name :: string
  ac_guild_id :: "string option"
  ac_guild_name :: "string option"
  ac_message_count :: int

text \<open>
  \<^verbatim>\<open>GROUP BY channel_id\<close> with \<^verbatim>\<open>COUNT(*)\<close>: one result row per channel id among the
  rows, its four other columns read from the row \<open>bare_row\<close> picks in the group.
\<close>

definition group_by_channel :: "engine \<Rightarrow> message_row list \<Rightarrow> active_channel list" where
  "group_by_channel eng rows =
     map (\<lambda>k. let g = filter (\<lambda>r. m_channel_id r = k) rows; b = bare_row eng g
              in \<lparr>ac_channel_id = m_channel_id b, ac_channel_name = m_channel_name b,
                  ac_guild_id = m_guild_id b, ac_guild_name = m_guild_name b,
                  ac_message_count = int (length g)\<rparr>)
       (sort (remdups (map m_channel_id rows)))"

text \<open>\<open>now\<close> is the value of \<^verbatim>\<open>datetime.now()\<close> during the call.\<close>

definition get_active_channels_try ::
  "engine \<Rightarrow> database \<Rightarrow> datetime \<Rightarrow> int \<Rightarrow> py_error + active_channel list" where
  "get_active_channels_try eng db now hours =
     bind_err (timedelta 0 hours 0 0 0) (\<lambda>td.
     bind_err (dt_sub now td) (\<lambda>c.
       let cutoff_time = isoformat c
       in bind_err (get_connection eng) (\<lambda>_.
            Inr (sort_key (\<lambda>ch. - ac_message_count ch)
                   (group_by_channel eng
                      (filter (\<lambda>r. cutoff_time \<le> m_created_at r) (messages db)))))))"

definition get_active_channels ::
  "engine \<Rightarrow> database \<Rightarrow> datetime \<Rightarrow> int \<Rightarrow> py_error + active_channel list" where
  "get_active_channels eng db now hours =
     (case get_active_channels_try eng db now hours of
        Inr chs \<Rightarrow> Inr chs
      | Inl e \<Rightarrow> Inr [])"

section \<open>JSON text of the standard library\<close>

text \<open>
  A Python \<^verbatim>\<open>str\<close> that goes through \<^verbatim>\<open>json\<close> is the list of its code points. The
  values \<^verbatim>\<open>json.dumps\<close> is given are the user names (a list of \<^verbatim>\<open>str\<close>) and the metadata
  (a \<^verbatim>\<open>dict\<close> from \<^verbatim>\<open>str\<close> to anything): \<open>JOther\<close> stands for an object that \<^verbatim>\<open>json\<close>
  cannot serialise (\<^verbatim>\<open>TypeError\<close>); floats are left out.
\<close>

type_synonym pystr = "int list"

datatype json = JNull | JBool bool | JInt int | JStr pystr | JArr "json list"
  | JObj "(pystr \<times> json) list" | JOther

definition QUOTE :: char where "QUOTE = CHR 0x22"
definition BACKSLASH :: char where "BACKSLASH = CHR 0x5C"

definition hex_char :: "int \<Rightarrow> char" where
  "hex_char n = (if n < 10 then char_of (48 + n) else char_of (87 + n))"

fun zhex :: "nat \<Rightarrow> int \<Rightarrow> string" where
  "zhex 0 n = []"
| "zhex (Suc k) n = zhex k (n div 16) @ [hex_char (n mod 16)]"

text \<open>\<^verbatim>\<open>'\\u{0:04x}'.format(n)\<close>, for \<open>n\<close> below \<open>0x10000\<close>.\<close>

definition u_escape :: "int \<Rightarrow> string" where
  "u_escape n = [BACKSLASH, CHR ''u''] @ zhex 4 n"

text \<open>
  \<^verbatim>\<open>py_encode_basestring_ascii\<close>: the replacement of one code point (\<^verbatim>\<open>ESCAPE_DCT\<close>, then
  the \<^verbatim>\<open>\\u\<close> escapes, a surrogate pair above the basic plane; \<open>n div 1024\<close> and
  \<open>n mod 1024\<close> are the source's \<^verbatim>\<open>n >> 10\<close> and \<^verbatim>\<open>n & 0x3ff\<close>), and the quoted string.
\<close>

definition escape_char :: "int \<Rightarrow> string" where
  "escape_char c =
     (if c = 0x22 then [BACKSLASH, QUOTE]
      else if c = 0x5C then [BACKSLASH, BACKSLASH]
      else if c = 0x0A then [BACKSLASH, CHR ''n'']
      else if c = 0x0D then [BACKSLASH, CHR ''r'']
      else if c = 0x09 then [BACKSLASH, CHR ''t'']
      else if c = 0x08 then [BACKSLASH, CHR ''b'']
      else if c = 0x0C then [BACKSLASH, CHR ''f'']
      else if 0x20 \<le> c \<and> c \<le> 0x7E then [char_of c]
      else if c < 0x10000 then u_escape c
      else let n = c - 0x10000;
               s1 = 0xD800 + (n div 1024) mod 1024;
               s2 = 0xDC00 + n mod 1024
           in u_escape s1 @ u_escape s2)"

definition encode_basestring_ascii :: "pystr \<Rightarrow> string" where
  "encode_basestring_ascii s = [QUOTE] @ concat (map escape_char s) @ [QUOTE]"

fun join :: "string \<Rightarrow> string list \<Rightarrow> string" where
  "join sep [] = []"
| "join sep [x] = x"
| "join sep (x # y # ys) = x @ sep @ join sep (y # ys)"

function dec :: "nat \<Rightarrow> string" where
  "dec n = (if n < 10 then [digit_char (int n)] else dec (n div 10) @ [digit_char (int (n mod 10))])"
  by pat_completeness auto
termination
  by (relation "measure (\<lambda>n. n)") auto

definition int_text :: "int \<Rightarrow> string" where
  "int_text n = (if n < 0 then ''-'' @ dec (nat (- n)) else dec (nat n))"

fun serialisable :: "json \<Rightarrow> bool" where
  "serialisable JOther = False"
| "serialisable (JArr xs) = (\<forall>x \<in> set xs. serialisable x)"
| "serialisable (JObj kvs) = (\<forall>kv \<in> set kvs. serialisable (snd kv))"
| "serialisable _ = True"

fun json_text :: "json \<Rightarrow> string" where
  "json_text JNull = ''null''"
| "json_text (JBool b) = (if b then ''true'' else ''false'')"
| "json_text (JInt n) = int_text n"
| "json_text (JStr s) = encode_basestring_ascii s"
| "json_text (JArr xs) = ''['' @ join '', '' (map json_text xs) @ '']''"
| "json_text (JObj kvs) =
     ''{'' @ join '', '' (map (\<lambda>kv. encode_basestring_ascii (fst kv) @ '': '' @ json_text (snd kv)) kvs)
     @ ''}''"
| "json_text JOther = []"

text \<open>\<^verbatim>\<open>json.dumps(obj)\<close> with its default arguments.\<close>

definition dumps :: "json \<Rightarrow> py_error + string" where
  "dumps obj = (if serialisable obj then Inr (json_text obj) else Inl TypeError)"

text \<open>
  \<^verbatim>\<open>json.loads\<close>, for a text that is an array of strings, which is how a reader of the
  column \<^verbatim>\<open>active_users_list\<close> gets the names back; any other text is a \<^verbatim>\<open>ValueError\<close>
  here. \<open>scanstring\<close> is \<^verbatim>\<open>py_scanstring\<close> after the opening quote: it returns the string
  and the text after the closing quote.
\<close>

definition hex_val :: "char \<Rightarrow> int option" where
  "hex_val c =
     (let n = of_char c :: int
      in if 48 \<le> n \<and> n \<le> 57 then Some (n - 48)
         else if 97 \<le> n \<and> n \<le> 102 then Some (n - 87)
         else if 65 \<le> n \<and> n \<le> 70 then Some (n - 55)
         else None)"

fun parse_hex :: "int \<Rightarrow> string \<Rightarrow> int option" where
  "parse_hex acc [] = Some acc"
| "parse_hex acc (c # cs) =
     (case hex_val c of None \<Rightarrow> None | Some v \<Rightarrow> parse_hex (acc * 16 + v) cs)"

definition decode_uXXXX :: "string \<Rightarrow> int option" where
  "decode_uXXXX s = (if length s < 4 then None else parse_hex 0 (take 4 s))"

definition backslash_char :: "char \<Rightarrow> int option" where
  "backslash_char e =
     (if e = QUOTE then Some 0x22
      else if e = BACKSLASH then Some 0x5C
      else if e = CHR ''/'' then Some 0x2F
      else if e = CHR ''b'' then Some 0x08
      else if e = CHR ''f'' then Some 0x0C
      else if e = CHR ''n'' then Some 0x0A
      else if e = CHR ''r'' then Some 0x0D
      else if e = CHR ''t'' then Some 0x09
      else None)"

definition cons_result :: "int \<Rightarrow> py_error + (pystr \<times> string) \<Rightarrow> py_error + (pystr \<times> string)" where
  "cons_result c r = (case r of Inl e \<Rightarrow> Inl e | Inr (cs, rest) \<Rightarrow> Inr (c # cs, rest))"

function scanstring :: "string \<Rightarrow> py_error + (pystr \<times> string)" where
  "scanstring [] = Inl ValueError"
| "scanstring (c # rest) =
     (if c = QUOTE then Inr ([], rest)
      else if c \<noteq> BACKSLASH then
        (if (of_char c :: int) < 0x20 then Inl ValueError
         else cons_result (of_char c) (scanstring rest))
      else
        (case rest of
           [] \<Rightarrow> Inl ValueError
         | e # rest1 \<Rightarrow>
             if e \<noteq> CHR ''u'' then
               (case backslash_char e of
                  None \<Rightarrow> Inl ValueError
                | Some v \<Rightarrow> cons_result v (scanstring rest1))
             else
               (case decode_uXXXX rest1 of
                  None \<Rightarrow> Inl ValueError
                | Some uni \<Rightarrow>
                    let rest2 = drop 4 rest1
                    in if 0xD800 \<le> uni \<and> uni \<le> 0xDBFF \<and> take 2 rest2 = [BACKSLASH, CHR ''u'']
                       then (case decode_uXXXX (drop 2 rest2) of
                               None \<Rightarrow> Inl ValueError
                             | Some uni2 \<Rightarrow>
                                 if 0xDC00 \<le> uni2 \<and> uni2 \<le> 0xDFFF
                                 then cons_result
                                        (0x10000 + ((uni - 0xD800) * 1024 + (uni2 - 0xDC00)))
                                        (scanstring (drop 6 rest2))
                                 else cons_result uni (scanstring rest2))
                       else cons_result uni (scanstring rest2))))"
  by pat_completeness auto
termination
  by (relation "measure length") auto

fun skip_ws :: "string \<Rightarrow> string" where
  "skip_ws [] = []"
| "skip_ws (c # cs) =
     (if c = CHR '' '' \<or> c = CHR 0x09 \<or> c = CHR 0x0A \<or> c = CHR 0x0D then skip_ws cs else c # cs)"

text \<open>
  The elements of a non-empty array, from its first element on: a string, then either a
  comma and the remaining elements or the closing bracket.
\<close>

function parse_elems :: "string \<Rightarrow> py_error + (pystr list \<times> string)" where
  "parse_elems [] = Inl ValueError"
| "parse_elems (c # r) =
     (if c \<noteq> QUOTE then Inl ValueError
      else (case scanstring r of
              Inl e \<Rightarrow> Inl e
            | Inr (x, r1) \<Rightarrow>
                (case skip_ws r1 of
                   [] \<Rightarrow> Inl ValueError
                 | d # r2 \<Rightarrow>
                     if d = CHR '','' then
                       (case parse_elems (skip_ws r2) of
                          Inl e \<Rightarrow> Inl e
                        | Inr (xs, r3) \<Rightarrow> Inr (x # xs, r3))
                     else if d = CHR '']'' then Inr ([x], r2)
                     else Inl ValueError)))"
  by pat_completeness auto
termination
proof -
  have cons_len: "cons_result v q = Inr (x, r') \<Longrightarrow> \<exists>y. q = Inr (y, r')" for v q x r'
    by (auto simp: cons_result_def split: sum.splits)
  have scan_len: "scanstring s = Inr (x, r') \<Longrightarrow> length r' < length s" for s x r'
  proof (induction s arbitrary: x rule: scanstring.induct)
    case 1
    then show ?case by simp
  next
    case (2 c rest)
    show ?case
    proof (cases "c = QUOTE")
      case True
      with "2.prems" show ?thesis by simp
    next
      case nq: False
      show ?thesis
      proof (cases "c = BACKSLASH")
        case False
        with nq "2.prems" obtain y where "scanstring rest = Inr (y, r')"
          by (auto split: if_splits dest: cons_len)
        with "2.IH"(1)[OF nq False] "2.prems" nq False show ?thesis
          by (auto split: if_splits)
      next
        case bs: True
        with nq "2.prems" obtain e rest1 where r: "rest = e # rest1"
          by (cases rest) auto
        show ?thesis
        proof (cases "e = CHR ''u''")
          case False
          with nq bs r "2.prems" obtain v y where
            "backslash_char e = Some v" "scanstring rest1 = Inr (y, r')"
            by (auto split: option.splits dest: cons_len)
          with "2.IH"(2)[OF nq _ r False] bs r show ?thesis by fastforce
        next
          case u: True
          with nq bs r "2.prems" obtain uni where d: "decode_uXXXX rest1 = Some uni"
            by (auto split: option.splits)
          show ?thesis
          proof (cases "0xD800 \<le> uni \<and> uni \<le> 0xDBFF \<and> take 2 (drop 4 rest1) = [BACKSLASH, CHR ''u'']")
            case False
            with nq bs r u d "2.prems" obtain y where
              "scanstring (drop 4 rest1) = Inr (y, r')"
              by (auto simp: Let_def dest: cons_len)
            with "2.IH"(5)[OF nq _ r _ d refl False] bs u r show ?thesis by fastforce
          next
            case sur: True
            with nq bs r u d "2.prems" obtain uni2 where
              d2: "decode_uXXXX (drop 2 (drop 4 rest1)) = Some uni2"
              by (auto simp: Let_def split: option.splits)
            show ?thesis
            proof (cases "0xDC00 \<le> uni2 \<and> uni2 \<le> 0xDFFF")
              case True
              with sur nq bs r u d d2 "2.prems" obtain y where
                "scanstring (drop 6 (drop 4 rest1)) = Inr (y, r')"
                by (auto simp: Let_def dest: cons_len)
              with "2.IH"(3)[OF nq _ r _ d refl sur d2 True] bs u r show ?thesis by fastforce
            next
              case False
              with sur nq bs r u d d2 "2.prems" obtain y where
                "scanstring (drop 4 rest1) = Inr (y, r')"
                by (auto simp: Let_def dest: cons_len)
              with "2.IH"(4)[OF nq _ r _ d refl sur d2 False] bs u r show ?thesis by fastforce
            qed
          qed
        qed
      qed
    qed
  qed
  have ws_len: "length (skip_ws s) \<le> length s" for s
    by (induction s) auto
  show ?thesis
  proof (relation "measure length", goal_cases)
    case 1
    show ?case by simp
  next
    case (2 c r x xa y d r2)
    from 2 have "scanstring r = Inr (xa, y)" by simp
    then have "length y < length r" by (rule scan_len)
    moreover from ws_len[of y] 2 have "length r2 < length y" by simp
    moreover have "length (skip_ws r2) \<le> length r2" by (rule ws_len)
    ultimately show ?case by simp
  qed
qed

definition finish_loads :: "pystr list \<Rightarrow> string \<Rightarrow> py_error + pystr list" where
  "finish_loads xs r = (if skip_ws r = [] then Inr xs else Inl ValueError)"

definition loads_str_list :: "string \<Rightarrow> py_error + pystr list" where
  "loads_str_list s =
     (case skip_ws s of
        [] \<Rightarrow> Inl ValueError
      | c # r \<Rightarrow>
          if c \<noteq> CHR ''['' then Inl ValueError
          else (case skip_ws r of
                  [] \<Rightarrow> Inl ValueError
                | d # r1 \<Rightarrow>
                    if d = CHR '']'' then finish_loads [] r1
                    else (case parse_elems (d # r1) of
                            Inl e \<Rightarrow> Inl e
                          | Inr (xs, r2) \<Rightarrow> finish_loads xs r2)))"

section \<open>Summary storage\<close>

text \<open>
  \<^verbatim>\<open>date.strftime('%Y-%m-%d')\<close>. The year is printed by the C library, which does not
  pad a year below 1000 (glibc, where CPython gives \<^verbatim>\<open>999-01-02\<close>): the year is written
  with the digits it has, the month and the day on two.
\<close>

definition strftime_ymd :: "datetime \<Rightarrow> string" where
  "strftime_ymd d = dec (nat (year d)) @ ''-'' @ zpad 2 (month d) @ ''-'' @ zpad 2 (day d)"

text \<open>
  \<^verbatim>\<open>INSERT INTO channel_summaries\<close>: an \<^verbatim>\<open>INTEGER\<close> column takes 64 bits (the driver
  raises \<^verbatim>\<open>OverflowError\<close> on a larger Python integer), and the \<^verbatim>\<open>AUTOINCREMENT\<close> key is
  one more than the largest key ever given, until the largest possible one was given.
  The argument row carries no key yet.
\<close>

definition INT64_MAX :: int where "INT64_MAX = 9223372036854775807"

definition insert_channel_summary :: "database \<Rightarrow> summary_row \<Rightarrow> py_error + database" where
  "insert_channel_summary db row =
     (if s_message_count row < - INT64_MAX - 1 \<or> INT64_MAX < s_message_count row
      then Inl OverflowError
      else if INT64_MAX \<le> summary_seq db then Inl OperationalError
      else Inr (db\<lparr>channel_summaries :=
                      channel_summaries db @ [row\<lparr>s_id := summary_seq db + 1\<rparr>],
                    summary_seq := summary_seq db + 1\<rparr>))"

text \<open>
  The \<^verbatim>\<open>try\<close> block of \<open>store_channel_summary\<close>. \<open>metadata\<close> is \<open>None\<close> for Python's
  \<^verbatim>\<open>None\<close> and \<open>Some kvs\<close> for a dictionary with the items \<open>kvs\<close>; the test
  \<^verbatim>\<open>if metadata\<close> holds for a dictionary that is not empty.
\<close>

definition metadata_json_of :: "(pystr \<times> json) list option \<Rightarrow> py_error + string option" where
  "metadata_json_of metadata =
     (case metadata of
        None \<Rightarrow> Inr None
      | Some kvs \<Rightarrow>
          if kvs \<noteq> [] then bind_err (dumps (JObj kvs)) (\<lambda>t. Inr (Some t)) else Inr None)"

definition store_channel_summary_try ::
  "engine \<Rightarrow> database \<Rightarrow> datetime \<Rightarrow> string \<Rightarrow> string \<Rightarrow> datetime \<Rightarrow> string \<Rightarrow> int \<Rightarrow> pystr list \<Rightarrow>
   string option \<Rightarrow> string option \<Rightarrow> (pystr \<times> json) list option \<Rightarrow> py_error + database" where
  "store_channel_summary_try eng db now channel_id channel_name date summary_text message_count
     active_users guild_id guild_name metadata =
     bind_err (dumps (JArr (map JStr active_users))) (\<lambda>active_users_json.
     bind_err (metadata_json_of metadata) (\<lambda>metadata_json.
       let date_str = strftime_ymd date; created_at = isoformat now
       in bind_err (get_connection eng) (\<lambda>_.
            insert_channel_summary db
              \<lparr>s_id = 0, s_channel_id = channel_id, s_channel_name = channel_name,
               s_guild_id = guild_id, s_guild_name = guild_name, s_date = date_str,
               s_summary_text = summary_text, s_message_count = message_count,
               s_active_users = int (length active_users),
               s_active_users_list = active_users_json, s_created_at = created_at,
               s_metadata = metadata_json\<rparr>)))"

definition store_channel_summary ::
  "engine \<Rightarrow> database \<Rightarrow> datetime \<Rightarrow> string \<Rightarrow> string \<Rightarrow> datetime \<Rightarrow> string \<Rightarrow> int \<Rightarrow> pystr list \<Rightarrow>
   string option \<Rightarrow> string option \<Rightarrow> (pystr \<times> json) list option \<Rightarrow>
   py_error + (bool \<times> database)" where
  "store_channel_summary eng db now channel_id channel_name date summary_text message_count
     active_users guild_id guild_name metadata =
     (case store_channel_summary_try eng db now channel_id channel_name date summary_text
             message_count active_users guild_id guild_name metadata of
        Inr db' \<Rightarrow> Inr (True, db')
      | Inl e \<Rightarrow> Inr (False, db))"

section \<open>Well-formed values\<close>

text \<open>
  Every \<^verbatim>\<open>created_at\<close> of the store is a text that \<open>fromisoformat\<close> reads: what
  \<open>store_message\<close>, the only writer of the table, leaves behind.
\<close>

definition parseable_db :: "database \<Rightarrow> bool" where
  "parseable_db db = (\<forall>r \<in> set (messages db). \<not> isl (fromisoformat (m_created_at r)))"

text \<open>A string of Unicode text: code points, none of them a surrogate.\<close>

definition unicode_text :: "pystr \<Rightarrow> bool" where
  "unicode_text s = (\<forall>c \<in> set s. 0 \<le> c \<and> c < 0x110000 \<and> \<not> (0xD800 \<le> c \<and> c \<le> 0xDFFF))"

text \<open>The keys of a dictionary in first-seen order.\<close>

fun first_seen :: "'a list \<Rightarrow> 'a list" where
  "first_seen [] = []"
| "first_seen (x # xs) = x # filter (\<lambda>y. y \<noteq> x) (first_seen xs)"

section \<open>The order of datetimes\<close>

text \<open>
  Python compares two naive datetimes as the tuples of their number fields, year first.
  The engine compares the stored texts; on naive datetimes the two orders are shown to
  agree below.
\<close>

definition dt_tuple :: "datetime \<Rightarrow> int \<times> int \<times> int \<times> int \<times> int \<times> int \<times> int" where
  "dt_tuple d = (year d, month d, day d, hour d, minute d, second d, microsecond d)"

section \<open>Grouping by channel, as the specification words it\<close>

text \<open>
  The mapping that the specification describes for a scan \<open>rows\<close> of the matching rows: one
  entry per channel id, in the order in which the ids are first seen in the scan, each
  with the identity columns of the first row of its channel and the messages of all rows
  of its channel in scan order. The message of a row (\<open>range_message_of\<close>) has the id, the
  author id, the author name and the content of the row, its \<open>created_at\<close> text read back
  as a datetime, and its two flags as booleans, true when the column is not zero. The loop
  \<open>group_rows\<close> of the source is compared with it below.
\<close>

definition range_message_of :: "message_row \<Rightarrow> range_message" where
  "range_message_of r =
     \<lparr>rm_id = m_id r, rm_author_id = m_author_id r, rm_author_name = m_author_name r,
      rm_content = m_content r, rm_created_at = projr (fromisoformat (m_created_at r)),
      rm_is_bot = (m_is_bot r \<noteq> 0), rm_is_command = (m_is_command r \<noteq> 0)\<rparr>"

definition channel_group_of :: "message_row list \<Rightarrow> string \<Rightarrow> channel_group" where
  "channel_group_of rows k =
     (let rs = filter (\<lambda>r. m_channel_id r = k) rows
      in \<lparr>g_channel_id = k, g_channel_name = m_channel_name (hd rs),
          g_guild_id = m_guild_id (hd rs), g_guild_name = m_guild_name (hd rs),
          g_messages = map range_message_of rs\<rparr>)"

definition grouped_first_seen :: "message_row list \<Rightarrow> (string \<times> channel_group) list" where
  "grouped_first_seen rows =
     map (\<lambda>k. (k, channel_group_of rows k)) (first_seen (map m_channel_id rows))"

section \<open>A sample store\<close>

text \<open>
  A healthy engine, an unreachable one, and a store of four messages in two channels, on
  which the theorems below are instantiated.
\<close>

definition engine_ok :: engine where
  "engine_ok = \<lparr>fault = None, bare_row = hd\<rparr>"

definition engine_down :: engine where
  "engine_down = \<lparr>fault = Some OperationalError, bare_row = hd\<rparr>"

definition stamp :: "int \<Rightarrow> int \<Rightarrow> int \<Rightarrow> int \<Rightarrow> datetime" where
  "stamp y m d hh =
     \<lparr>year = y, month = m, day = d, hour = hh, minute = 0, second = 0, microsecond = 0,
      tzinfo = None\<rparr>"

definition sample_row :: "string \<Rightarrow> string \<Rightarrow> string \<Rightarrow> message_row" where
  "sample_row i c t =
     \<lparr>m_id = i, m_author_id = ''u1'', m_author_name = ''ann'', m_channel_id = c,
      m_channel_name = ''general'', m_guild_id = None, m_guild_name = None,
      m_content = ''hello'', m_created_at = t, m_is_bot = 0, m_is_command = 1,
      m_command_type = None\<rparr>"

definition sample_db :: database where
  "sample_db =
     \<lparr>messages =
        [sample_row ''m1'' ''c2'' ''2024-01-02T00:00:00'',
         sample_row ''m2'' ''c1'' ''2024-01-03T00:00:00'',
         sample_row ''m3'' ''c2'' ''2024-01-01T03:00:00.000001'',
         sample_row ''m4'' ''c1'' ''2024-01-01T00:00:00''],
      channel_summaries = [], summary_seq = 0\<rparr>"

text \<open>
  \<^verbatim>\<open>d.replace(tzinfo=timezone(timedelta(microseconds=off)))\<close>: the datetime \<open>d\<close> made
  aware, which is how the timestamps of messages arrive.
\<close>

definition replace_tzinfo :: "datetime \<Rightarrow> int \<Rightarrow> datetime" where
  "replace_tzinfo d off = d\<lparr>tzinfo := Some off\<rparr>"

text \<open>
  A store of six messages by three authors in two channels, out of time order, with
  timestamps of aware (UTC) and naive datetimes, and with rows that differ in every column
  the queries return.
\<close>

definition empty_db :: database where
  "empty_db = \<lparr>messages = [], channel_summaries = [], summary_seq = 0\<rparr>"

definition varied_db :: database where
  "varied_db =
     \<lparr>messages =
        [\<lparr>m_id = ''v1'', m_author_id = ''u2'', m_author_name = ''bot'', m_channel_id = ''c2'',
          m_channel_name = ''dev-2'', m_guild_id = Some ''g1'', m_guild_name = Some ''guild-2'',
          m_content = ''/sum-day'', m_created_at = ''2024-01-01T09:30:00.250000+00:00'',
          m_is_bot = 1, m_is_command = 1, m_command_type = Some ''sum-day''\<rparr>,
         \<lparr>m_id = ''v2'', m_author_id = ''u1'', m_author_name = ''ann'', m_channel_id = ''c2'',
          m_channel_name = ''dev'', m_guild_id = Some ''g1'', m_guild_name = Some ''guild'',
          m_content = ''hello'', m_created_at = ''2024-01-01T03:00:00+00:00'',
          m_is_bot = 0, m_is_command = 0, m_command_type = None\<rparr>,
         \<lparr>m_id = ''v3'', m_author_id = ''u3'', m_author_name = ''cy'', m_channel_id = ''c1'',
          m_channel_name = ''general'', m_guild_id = None, m_guild_name = None,
          m_content = ''/bye'', m_created_at = ''2024-01-01T03:00:00'',
          m_is_bot = 0, m_is_command = 1, m_command_type = Some ''bye''\<rparr>,
         \<lparr>m_id = ''v4'', m_author_id = ''u1'', m_author_name = ''ann'', m_channel_id = ''c2'',
          m_channel_name = ''dev'', m_guild_id = Some ''g1'', m_guild_name = Some ''guild'',
          m_content = ''late'', m_created_at = ''2024-01-02T00:00:00+00:00'',
          m_is_bot = 0, m_is_command = 0, m_command_type = None\<rparr>,
         \<lparr>m_id = ''v5'', m_author_id = ''u3'', m_author_name = ''cy'', m_channel_id = ''c1'',
          m_channel_name = ''general'', m_guild_id = None, m_guild_name = None,
          m_content = ''early'', m_created_at = ''2023-12-31T21:00:00+00:00'',
          m_is_bot = 0, m_is_command = 0, m_command_type = None\<rparr>,
         \<lparr>m_id = ''v6'', m_author_id = ''u3'', m_author_name = ''cy'', m_channel_id = ''c2'',
          m_channel_name = ''dev'', m_guild_id = Some ''g1'', m_guild_name = Some ''guild'',
          m_content = ''ping'', m_created_at = ''2024-01-01T05:00:00'',
          m_is_bot = 1, m_is_command = 0, m_command_type = None\<rparr>],
      channel_summaries = [], summary_seq = 0\<rparr>"

section \<open>Properties\<close>

subsection \<open>Exceptions and the engine\<close>

lemma bind_err_simps [simp]:
  "bind_err (Inl e) f = Inl e" "bind_err (Inr v) f = f v"
  by (simp_all add: bind_err_def)

lemma get_connection_simps:
  "fault eng = None \<Longrightarrow> get_connection eng = Inr ()"
  "fault eng = Some e \<Longrightarrow> get_connection eng = Inl e"
  by (simp_all add: get_connection_def)

subsection \<open>Duplicate message ids\<close>

text \<open>
  Claim C3. A \<open>store_message\<close> call whose id is already in the table returns \<open>False\<close>
  without raising and leaves the store as it was, whatever the other arguments and the
  state of the engine, so the stored row and the message count are unchanged. With a
  healthy engine, the insert of an id that is not in the table returns \<open>True\<close>, adds that
  id at the end of the table, and \<open>get_message_count\<close> grows by one.
\<close>

theorem store_message_duplicate_rejected:
  "(message_id \<in> set (map m_id (messages db)) \<longrightarrow>
      store_message eng db message_id author_id author_name channel_id channel_name content
        created_at guild_id guild_name is_bot is_command command_type = Inr (False, db)) \<and>
   (message_id \<notin> set (map m_id (messages db)) \<and> fault eng = None \<longrightarrow>
      (\<exists>db'. store_message eng db message_id author_id author_name channel_id channel_name
               content created_at guild_id guild_name is_bot is_command command_type
               = Inr (True, db') \<and>
             map m_id (messages db') = map m_id (messages db) @ [message_id] \<and>
             get_message_count eng db = Inr (int (length (messages db))) \<and>
             get_message_count eng db' = Inr (int (length (messages db)) + 1)))"
proof (intro conjI impI)
  assume dup: "message_id \<in> set (map m_id (messages db))"
  show "store_message eng db message_id author_id author_name channel_id channel_name content
        created_at guild_id guild_name is_bot is_command command_type = Inr (False, db)"
  proof (cases "fault eng")
    case None
    with dup show ?thesis
      by (simp add: store_message_def store_message_try_def get_connection_simps
          insert_message_def)
  next
    case (Some e)
    then show ?thesis
      by (simp add: store_message_def store_message_try_def get_connection_simps)
  qed
next
  assume fresh: "message_id \<notin> set (map m_id (messages db)) \<and> fault eng = None"
  then show "\<exists>db'. store_message eng db message_id author_id author_name channel_id channel_name
               content created_at guild_id guild_name is_bot is_command command_type
               = Inr (True, db') \<and>
             map m_id (messages db') = map m_id (messages db) @ [message_id] \<and>
             get_message_count eng db = Inr (int (length (messages db))) \<and>
             get_message_count eng db' = Inr (int (length (messages db)) + 1)"
    by (simp add: store_message_def store_message_try_def get_connection_simps
        insert_message_def get_message_count_def get_message_count_try_def)
qed

theorem store_message_duplicate_rejected_witness:
  "''m1'' \<in> set (map m_id (messages sample_db)) \<and>
   store_message engine_down sample_db ''m1'' ''u7'' ''bob'' ''c9'' ''random'' ''again''
     (stamp 2024 1 5 9) None None True False None = Inr (False, sample_db) \<and>
   ''m9'' \<notin> set (map m_id (messages sample_db)) \<and> fault engine_ok = None \<and>
   (\<exists>db'. store_message engine_ok sample_db ''m9'' ''u7'' ''bob'' ''c9'' ''random'' ''first''
            (stamp 2024 1 5 9) None None True False None = Inr (True, db') \<and>
          map m_id (messages db') = [''m1'', ''m2'', ''m3'', ''m4'', ''m9''] \<and>
          get_message_count engine_ok sample_db = Inr 4 \<and>
          get_message_count engine_ok db' = Inr 5)"
  using store_message_duplicate_rejected [of "''m1''" sample_db engine_down "''u7''" "''bob''"
      "''c9''" "''random''" "''again''" "stamp 2024 1 5 9" None None True False None]
    store_message_duplicate_rejected [of "''m9''" sample_db engine_ok "''u7''" "''bob''"
      "''c9''" "''random''" "''first''" "stamp 2024 1 5 9" None None True False None]
  by (simp add: sample_db_def sample_row_def engine_ok_def)

subsection \<open>Retention pruning\<close>

text \<open>
  Claim C4. With a healthy engine \<open>delete_messages_older_than\<close> keeps exactly the rows
  whose \<open>created_at\<close> is not below the ISO text of the cutoff, in their order, and touches
  nothing else: the table before is the table after plus the rows below the cutoff. The
  count it returns is the number of rows that left the table, and the same call on the
  resulting store returns 0 and changes nothing. When the engine fails the call returns 0
  and the store is as before.
\<close>

theorem delete_messages_older_than_exact:
  "(fault eng = None \<longrightarrow>
      (\<exists>db'. delete_messages_older_than eng db cutoff_time
               = Inr (int (length (messages db)) - int (length (messages db')), db') \<and>
             messages db' = filter (\<lambda>r. \<not> m_created_at r < isoformat cutoff_time) (messages db) \<and>
             channel_summaries db' = channel_summaries db \<and>
             mset (messages db) =
               mset (messages db') +
               filter_mset (\<lambda>r. m_created_at r < isoformat cutoff_time) (mset (messages db)) \<and>
             delete_messages_older_than eng db' cutoff_time = Inr (0, db'))) \<and>
   (fault eng \<noteq> None \<longrightarrow> delete_messages_older_than eng db cutoff_time = Inr (0, db))"
proof (intro conjI impI)
  assume ok: "fault eng = None"
  let ?old = "\<lambda>r. m_created_at r < isoformat cutoff_time"
  let ?db' = "db\<lparr>messages := filter (\<lambda>r. \<not> ?old r) (messages db)\<rparr>"
  have len: "length (messages db) =
      length (filter ?old (messages db)) + length (filter (\<lambda>r. \<not> ?old r) (messages db))"
    by (rule sum_length_filter_compl [symmetric])
  have first: "delete_messages_older_than eng db cutoff_time
      = Inr (int (length (messages db)) - int (length (messages ?db')), ?db')"
    using ok len
    by (simp add: delete_messages_older_than_def delete_messages_older_than_try_def
        get_connection_simps Let_def)
  have again: "delete_messages_older_than eng ?db' cutoff_time = Inr (0, ?db')"
    using ok
    by (simp add: delete_messages_older_than_def delete_messages_older_than_try_def
        get_connection_simps Let_def)
  have parts: "mset (messages db) = mset (messages ?db') + filter_mset ?old (mset (messages db))"
    by (simp add: multiset_eq_iff)
  from first again parts show "\<exists>db'. delete_messages_older_than eng db cutoff_time
               = Inr (int (length (messages db)) - int (length (messages db')), db') \<and>
             messages db' = filter (\<lambda>r. \<not> m_created_at r < isoformat cutoff_time) (messages db) \<and>
             channel_summaries db' = channel_summaries db \<and>
             mset (messages db) =
               mset (messages db') +
               filter_mset (\<lambda>r. m_created_at r < isoformat cutoff_time) (mset (messages db)) \<and>
             delete_messages_older_than eng db' cutoff_time = Inr (0, db')"
    by (intro exI[of _ ?db']) simp
next
  assume "fault eng \<noteq> None"
  then show "delete_messages_older_than eng db cutoff_time = Inr (0, db)"
    by (auto simp: delete_messages_older_than_def delete_messages_older_than_try_def
        get_connection_simps Let_def)
qed

lemma isoformat_jan2: "isoformat (stamp 2024 1 2 0) = ''2024-01-02T00:00:00''"
  by code_simp

theorem delete_messages_older_than_exact_witness:
  "fault engine_ok = None \<and>
   (\<exists>db'. delete_messages_older_than engine_ok sample_db (stamp 2024 1 2 0) = Inr (2, db') \<and>
          map m_id (messages db') = [''m1'', ''m2''] \<and>
          delete_messages_older_than engine_ok db' (stamp 2024 1 2 0) = Inr (0, db')) \<and>
   fault engine_down \<noteq> None \<and>
   delete_messages_older_than engine_down sample_db (stamp 2024 1 2 0) = Inr (0, sample_db)"
  using delete_messages_older_than_exact [of engine_ok sample_db "stamp 2024 1 2 0"]
    delete_messages_older_than_exact [of engine_down sample_db "stamp 2024 1 2 0"]
  by (auto simp: isoformat_jan2 sample_db_def sample_row_def engine_ok_def engine_down_def)

subsection \<open>The day wrapper\<close>

text \<open>
  Claim C8. For a datetime \<open>date\<close> that Python can hold, \<open>get_channel_messages_for_day\<close>
  returns what \<open>get_channel_messages_for_timeframe\<close> returns between \<open>date\<close> at
  00:00:00.000000 and \<open>date\<close> at 23:59:59.999999, both without zone (local time).
\<close>

theorem day_is_timeframe:
  assumes "valid_datetime date"
  shows "get_channel_messages_for_day eng db channel_id date =
         get_channel_messages_for_timeframe eng db channel_id
           (date\<lparr>hour := 0, minute := 0, second := 0, microsecond := 0, tzinfo := None\<rparr>)
           (date\<lparr>hour := 23, minute := 59, second := 59, microsecond := 999999,
                 tzinfo := None\<rparr>)"
proof -
  have s: "mk_datetime (year date) (month date) (day date) 0 0 0 0 None
           = Inr (date\<lparr>hour := 0, minute := 0, second := 0, microsecond := 0,
                       tzinfo := None\<rparr>)"
    using assms by (simp add: mk_datetime_def valid_datetime_def Let_def)
  have e: "mk_datetime (year date) (month date) (day date) 23 59 59 999999 None
           = Inr (date\<lparr>hour := 23, minute := 59, second := 59, microsecond := 999999,
                       tzinfo := None\<rparr>)"
    using assms by (simp add: mk_datetime_def valid_datetime_def Let_def)
  show ?thesis by (simp add: get_channel_messages_for_day_def s e)
qed

lemma valid_stamp_jan1: "valid_datetime (stamp 2024 1 1 19)"
  by code_simp

theorem day_is_timeframe_witness:
  "valid_datetime (stamp 2024 1 1 19) \<and>
   get_channel_messages_for_day engine_ok sample_db ''c2'' (stamp 2024 1 1 19) =
   get_channel_messages_for_timeframe engine_ok sample_db ''c2'' (stamp 2024 1 1 0)
     \<lparr>year = 2024, month = 1, day = 1, hour = 23, minute = 59, second = 59,
      microsecond = 999999, tzinfo = None\<rparr>"
  using day_is_timeframe [OF valid_stamp_jan1, of engine_ok sample_db "''c2''"] valid_stamp_jan1
  by (simp add: stamp_def)

text \<open>
  Claim C10. Two datetimes with the same year, month and day give the same result of
  \<open>get_channel_messages_for_day\<close>, whatever their times of day: the bounds are built from
  the three date fields only.
\<close>

theorem day_ignores_time_of_day:
  assumes "year d1 = year d2" and "month d1 = month d2" and "day d1 = day d2"
  shows "get_channel_messages_for_day eng db channel_id d1 =
         get_channel_messages_for_day eng db channel_id d2"
  using assms by (simp add: get_channel_messages_for_day_def)

theorem day_ignores_time_of_day_witness:
  "stamp 2024 1 1 19 \<noteq> stamp 2024 1 1 3 \<and>
   get_channel_messages_for_day engine_ok sample_db ''c2'' (stamp 2024 1 1 19) =
   get_channel_messages_for_day engine_ok sample_db ''c2'' (stamp 2024 1 1 3)"
  using day_ignores_time_of_day [of "stamp 2024 1 1 19" "stamp 2024 1 1 3" engine_ok sample_db
      "''c2''"]
  by (simp add: stamp_def)

subsection \<open>Empty metadata\<close>

text \<open>
  Claim C9. \<open>store_channel_summary\<close> with the empty dictionary as metadata does exactly
  what it does with no metadata: same result, same store. When the call succeeds the new
  row, the last of the table, has \<^verbatim>\<open>NULL\<close> in its metadata column.
\<close>

theorem empty_metadata_stored_as_null:
  "store_channel_summary eng db now channel_id channel_name date summary_text message_count
     active_users guild_id guild_name (Some [])
   = store_channel_summary eng db now channel_id channel_name date summary_text message_count
       active_users guild_id guild_name None \<and>
   (\<forall>db'. store_channel_summary eng db now channel_id channel_name date summary_text
            message_count active_users guild_id guild_name (Some []) = Inr (True, db') \<longrightarrow>
          channel_summaries db' \<noteq> [] \<and>
          butlast (channel_summaries db') = channel_summaries db \<and>
          s_metadata (last (channel_summaries db')) = None)"
proof -
  have m: "metadata_json_of (Some []) = Inr None" "metadata_json_of None = Inr None"
    by (simp_all add: metadata_json_of_def)
  have eq: "store_channel_summary_try eng db now channel_id channel_name date summary_text
       message_count active_users guild_id guild_name (Some [])
     = store_channel_summary_try eng db now channel_id channel_name date summary_text
       message_count active_users guild_id guild_name None"
    by (simp add: store_channel_summary_try_def m)
  have row: "channel_summaries db' \<noteq> [] \<and>
          butlast (channel_summaries db') = channel_summaries db \<and>
          s_metadata (last (channel_summaries db')) = None"
    if "store_channel_summary_try eng db now channel_id channel_name date summary_text
       message_count active_users guild_id guild_name (Some []) = Inr db'" for db'
    using that
    by (auto simp: store_channel_summary_try_def m bind_err_def insert_channel_summary_def
        Let_def split: sum.splits if_splits)
  show ?thesis
    using row by (auto simp: store_channel_summary_def eq split: sum.splits)
qed

lemma sample_summary_stored:
  "\<exists>db'. store_channel_summary engine_ok sample_db (stamp 2024 1 3 8) ''c1'' ''general''
           (stamp 2024 1 2 0) ''quiet day'' 2 [[97, 110, 110], [98, 111, 98]] None None
           (Some []) = Inr (True, db')"
  by (simp add: store_channel_summary_def store_channel_summary_try_def dumps_def
      metadata_json_of_def get_connection_simps insert_channel_summary_def INT64_MAX_def
      engine_ok_def sample_db_def)

theorem empty_metadata_stored_as_null_witness:
  "store_channel_summary engine_ok sample_db (stamp 2024 1 3 8) ''c1'' ''general''
     (stamp 2024 1 2 0) ''quiet day'' 2 [[97, 110, 110], [98, 111, 98]] None None (Some [])
   = store_channel_summary engine_ok sample_db (stamp 2024 1 3 8) ''c1'' ''general''
       (stamp 2024 1 2 0) ''quiet day'' 2 [[97, 110, 110], [98, 111, 98]] None None None \<and>
   (\<exists>db'. store_channel_summary engine_ok sample_db (stamp 2024 1 3 8) ''c1'' ''general''
            (stamp 2024 1 2 0) ''quiet day'' 2 [[97, 110, 110], [98, 111, 98]] None None
            (Some []) = Inr (True, db') \<and>
          s_metadata (last (channel_summaries db')) = None)"
  using empty_metadata_stored_as_null [of engine_ok sample_db "stamp 2024 1 3 8" "''c1''"
      "''general''" "stamp 2024 1 2 0" "''quiet day''" 2 "[[97, 110, 110], [98, 111, 98]]"
      None None]
    sample_summary_stored
  by blast

subsection \<open>Loops that read rows\<close>

lemma map_err_all_ok:
  "\<forall>x \<in> set xs. \<not> isl (f x) \<Longrightarrow> map_err f xs = Inr (map (\<lambda>x. projr (f x)) xs)"
proof (induction xs)
  case Nil
  show ?case by simp
next
  case (Cons x xs)
  from Cons.prems obtain y where y: "f x = Inr y"
    by (cases "f x") auto
  with Cons show ?case by simp
qed

lemma row_to_message_ok:
  "\<not> isl (fromisoformat (m_created_at r)) \<Longrightarrow>
   row_to_message r =
     Inr \<lparr>p_author_name = m_author_name r, p_content = m_content r,
          p_created_at = projr (fromisoformat (m_created_at r)),
          p_is_bot = (m_is_bot r \<noteq> 0), p_is_command = (m_is_command r \<noteq> 0)\<rparr>"
  by (cases "fromisoformat (m_created_at r)")
    (simp_all add: row_to_message_def projection_at_def py_bool_def)

lemma timedelta_five_hours: "timedelta 0 5 0 0 0 = Inr (5 * 3600000000)"
  by (simp add: timedelta_def US_PER_DAY_def)

subsection \<open>The time frame of one channel\<close>

text \<open>
  Claim C1. Let the engine be healthy, let every stored \<open>created_at\<close> be readable, and let
  \<open>s\<close> and \<open>e\<close> be the bounds moved five hours ahead (so both sums exist). Then
  \<open>get_channel_messages_for_timeframe\<close> returns one dictionary for each row of a list
  \<open>rows\<close>, in the order of that list, with five entries: the author name and the content
  of the row, its \<open>created_at\<close> text read back as a datetime, and its two flags as
  booleans, true when the column is not zero. The list \<open>rows\<close> holds exactly the stored
  rows of the channel whose \<open>created_at\<close> text lies between the ISO texts of \<open>s\<close> and
  \<open>e\<close>, both included, each as often as it is stored, in ascending order of
  \<open>created_at\<close>.
\<close>

theorem timeframe_exact:
  assumes "fault eng = None" and "parseable_db db"
    and "dt_add start_date (5 * 3600000000) = Inr s"
    and "dt_add end_date (5 * 3600000000) = Inr e"
  shows "\<exists>rows.
           get_channel_messages_for_timeframe eng db channel_id start_date end_date
             = Inr (map (\<lambda>r. \<lparr>p_author_name = m_author_name r, p_content = m_content r,
                                p_created_at = projr (fromisoformat (m_created_at r)),
                                p_is_bot = (m_is_bot r \<noteq> 0),
                                p_is_command = (m_is_command r \<noteq> 0)\<rparr>) rows) \<and>
           mset rows =
             filter_mset (\<lambda>r. m_channel_id r = channel_id \<and>
                               isoformat s \<le> m_created_at r \<and> m_created_at r \<le> isoformat e)
               (mset (messages db)) \<and>
           sorted (map m_created_at rows)"
proof -
  let ?P = "\<lambda>r. m_channel_id r = channel_id \<and>
                 isoformat s \<le> m_created_at r \<and> m_created_at r \<le> isoformat e"
  let ?rows = "sort_key m_created_at (filter ?P (messages db))"
  let ?proj = "\<lambda>r. \<lparr>p_author_name = m_author_name r, p_content = m_content r,
                      p_created_at = projr (fromisoformat (m_created_at r)),
                      p_is_bot = (m_is_bot r \<noteq> 0), p_is_command = (m_is_command r \<noteq> 0)\<rparr>"
  have readable: "\<forall>r \<in> set ?rows. \<not> isl (fromisoformat (m_created_at r))"
    using assms(2) by (simp add: parseable_db_def)
  then have "\<forall>r \<in> set ?rows. \<not> isl (row_to_message r)"
    by (simp add: row_to_message_ok)
  then have "map_err row_to_message ?rows = Inr (map (\<lambda>r. projr (row_to_message r)) ?rows)"
    by (rule map_err_all_ok)
  also have "map (\<lambda>r. projr (row_to_message r)) ?rows = map ?proj ?rows"
    using readable by (intro map_cong refl) (simp add: row_to_message_ok)
  finally have loop: "map_err row_to_message ?rows = Inr (map ?proj ?rows)" .
  have "get_channel_messages_for_timeframe eng db channel_id start_date end_date
      = Inr (map ?proj ?rows)"
    using assms(1,3,4) loop
    by (simp add: get_channel_messages_for_timeframe_def
        get_channel_messages_for_timeframe_try_def timedelta_five_hours get_connection_simps)
  moreover have "mset ?rows = filter_mset ?P (mset (messages db))"
    by simp
  moreover have "sorted (map m_created_at ?rows)"
    by (rule sorted_sort_key)
  ultimately show ?thesis by blast
qed

lemma parseable_sample_db: "parseable_db sample_db"
  by code_simp

lemma parseable_varied_db: "parseable_db varied_db"
  by code_simp

lemma five_hours_after_dec31: "dt_add (stamp 2023 12 31 22) (5 * 3600000000) = Inr (stamp 2024 1 1 3)"
  by code_simp

lemma five_hours_after_jan1: "dt_add (stamp 2024 1 1 19) (5 * 3600000000) = Inr (stamp 2024 1 2 0)"
  by code_simp

lemma isoformat_jan1_3h: "isoformat (stamp 2024 1 1 3) = ''2024-01-01T03:00:00''"
  by code_simp

theorem timeframe_exact_witness:
  "fault engine_ok = None \<and> parseable_db varied_db \<and>
   dt_add (stamp 2023 12 31 22) (5 * 3600000000) = Inr (stamp 2024 1 1 3) \<and>
   dt_add (stamp 2024 1 1 19) (5 * 3600000000) = Inr (stamp 2024 1 2 0) \<and>
   (\<exists>rows.
      get_channel_messages_for_timeframe engine_ok varied_db ''c2'' (stamp 2023 12 31 22)
        (stamp 2024 1 1 19)
        = Inr (map (\<lambda>r. \<lparr>p_author_name = m_author_name r, p_content = m_content r,
                           p_created_at = projr (fromisoformat (m_created_at r)),
                           p_is_bot = (m_is_bot r \<noteq> 0),
                           p_is_command = (m_is_command r \<noteq> 0)\<rparr>) rows) \<and>
      mset rows =
        filter_mset (\<lambda>r. m_channel_id r = ''c2'' \<and>
                          ''2024-01-01T03:00:00'' \<le> m_created_at r \<and>
                          m_created_at r \<le> ''2024-01-02T00:00:00'')
          (mset (messages varied_db)) \<and>
      sorted (map m_created_at rows)) \<and>
   get_channel_messages_for_timeframe engine_ok varied_db ''c2'' (stamp 2023 12 31 22)
     (stamp 2024 1 1 19)
   = Inr [\<lparr>p_author_name = ''ann'', p_content = ''hello'',
           p_created_at = \<lparr>year = 2024, month = 1, day = 1, hour = 3, minute = 0, second = 0,
                            microsecond = 0, tzinfo = Some 0\<rparr>,
           p_is_bot = False, p_is_command = False\<rparr>,
          \<lparr>p_author_name = ''cy'', p_content = ''ping'',
           p_created_at = \<lparr>year = 2024, month = 1, day = 1, hour = 5, minute = 0, second = 0,
                            microsecond = 0, tzinfo = None\<rparr>,
           p_is_bot = True, p_is_command = False\<rparr>,
          \<lparr>p_author_name = ''bot'', p_content = ''/sum-day'',
           p_created_at = \<lparr>year = 2024, month = 1, day = 1, hour = 9, minute = 30, second = 0,
                            microsecond = 250000, tzinfo = Some 0\<rparr>,
           p_is_bot = True, p_is_command = True\<rparr>]"
proof -
  have ok: "fault engine_ok = None"
    by (simp add: engine_ok_def)
  have v: "get_channel_messages_for_timeframe engine_ok varied_db ''c2'' (stamp 2023 12 31 22)
     (stamp 2024 1 1 19)
   = Inr [\<lparr>p_author_name = ''ann'', p_content = ''hello'',
           p_created_at = \<lparr>year = 2024, month = 1, day = 1, hour = 3, minute = 0, second = 0,
                            microsecond = 0, tzinfo = Some 0\<rparr>,
           p_is_bot = False, p_is_command = False\<rparr>,
          \<lparr>p_author_name = ''cy'', p_content = ''ping'',
           p_created_at = \<lparr>year = 2024, month = 1, day = 1, hour = 5, minute = 0, second = 0,
                            microsecond = 0, tzinfo = None\<rparr>,
           p_is_bot = True, p_is_command = False\<rparr>,
          \<lparr>p_author_name = ''bot'', p_content = ''/sum-day'',
           p_created_at = \<lparr>year = 2024, month = 1, day = 1, hour = 9, minute = 30, second = 0,
                            microsecond = 250000, tzinfo = Some 0\<rparr>,
           p_is_bot = True, p_is_command = True\<rparr>]"
    by code_simp
  from timeframe_exact [OF ok parseable_varied_db five_hours_after_dec31
      five_hours_after_jan1, of "''c2''"]
  have ex: "\<exists>rows.
      get_channel_messages_for_timeframe engine_ok varied_db ''c2'' (stamp 2023 12 31 22)
        (stamp 2024 1 1 19)
        = Inr (map (\<lambda>r. \<lparr>p_author_name = m_author_name r, p_content = m_content r,
                           p_created_at = projr (fromisoformat (m_created_at r)),
                           p_is_bot = (m_is_bot r \<noteq> 0),
                           p_is_command = (m_is_command r \<noteq> 0)\<rparr>) rows) \<and>
      mset rows =
        filter_mset (\<lambda>r. m_channel_id r = ''c2'' \<and>
                          ''2024-01-01T03:00:00'' \<le> m_created_at r \<and>
                          m_created_at r \<le> ''2024-01-02T00:00:00'')
          (mset (messages varied_db)) \<and>
      sorted (map m_created_at rows)"
    unfolding isoformat_jan1_3h isoformat_jan2 .
  show ?thesis
    by (intro conjI) (rule ok parseable_varied_db five_hours_after_dec31 five_hours_after_jan1
        ex v)+
qed

subsection \<open>The grouping loop\<close>

lemma first_seen_set [simp]: "set (first_seen xs) = set xs"
  by (induction xs) auto

lemma first_seen_distinct [simp]: "distinct (first_seen xs)"
  by (induction xs) auto

lemma first_seen_snoc:
  "first_seen (xs @ [x]) = (if x \<in> set xs then first_seen xs else first_seen xs @ [x])"
  by (induction xs) auto

lemma first_seen_sorted: "sorted xs \<Longrightarrow> sorted (first_seen xs)"
proof (induction xs)
  case Nil
  show ?case by simp
next
  case (Cons x xs)
  then have "sorted (filter (\<lambda>y. y \<noteq> x) (first_seen xs))"
    by (simp add: sorted_filter [where f = "\<lambda>x. x", simplified])
  with Cons.prems show ?case by auto
qed

lemma group_rows_snoc:
  "group_rows d (xs @ [x]) = bind_err (group_rows d xs) (\<lambda>d'. group_step d' x)"
proof (induction xs arbitrary: d)
  case Nil
  show ?case by (cases "group_step d x") simp_all
next
  case (Cons y ys)
  show ?case by (cases "group_step d y") (simp_all add: Cons.IH)
qed

lemma group_step_ok:
  assumes "\<not> isl (fromisoformat (m_created_at row))"
  shows "group_step d row =
         Inr (append_message
                (if m_channel_id row \<notin> set (map fst d)
                 then d @ [(m_channel_id row, new_group row)] else d)
                (m_channel_id row) (range_message_of row))"
proof -
  from assms obtain dt where "fromisoformat (m_created_at row) = Inr dt"
    by (cases "fromisoformat (m_created_at row)") auto
  then show ?thesis
    by (simp add: group_step_def Let_def range_message_of_def range_message_at_def py_bool_def)
qed

lemma grouped_first_seen_keys:
  "map fst (grouped_first_seen rows) = first_seen (map m_channel_id rows)"
  by (simp add: grouped_first_seen_def comp_def)

lemma channel_group_of_other:
  "k \<noteq> m_channel_id x \<Longrightarrow> channel_group_of (xs @ [x]) k = channel_group_of xs k"
  by (simp add: channel_group_of_def)

lemma channel_group_of_new:
  "m_channel_id x \<notin> set (map m_channel_id xs) \<Longrightarrow>
   channel_group_of (xs @ [x]) (m_channel_id x)
   = (new_group x)\<lparr>g_messages := [range_message_of x]\<rparr>"
proof -
  assume "m_channel_id x \<notin> set (map m_channel_id xs)"
  then have "\<forall>r \<in> set xs. m_channel_id r \<noteq> m_channel_id x"
    by (metis imageI set_map)
  then have "filter (\<lambda>r. m_channel_id r = m_channel_id x) xs = []"
    by (simp add: filter_empty_conv)
  then show ?thesis
    by (simp add: channel_group_of_def new_group_def)
qed

lemma channel_group_of_old:
  "m_channel_id x \<in> set (map m_channel_id xs) \<Longrightarrow>
   channel_group_of (xs @ [x]) (m_channel_id x)
   = (channel_group_of xs (m_channel_id x))
       \<lparr>g_messages := g_messages (channel_group_of xs (m_channel_id x)) @ [range_message_of x]\<rparr>"
proof -
  assume "m_channel_id x \<in> set (map m_channel_id xs)"
  then have "filter (\<lambda>r. m_channel_id r = m_channel_id x) xs \<noteq> []"
    by (auto simp: filter_empty_conv)
  then show ?thesis
    by (simp add: channel_group_of_def Let_def)
qed

lemma append_message_grouped:
  "append_message (map (\<lambda>k. (k, channel_group_of xs k)) ks) (m_channel_id x) (range_message_of x)
   = map (\<lambda>k. (k, if k = m_channel_id x
                    then (channel_group_of xs k)
                           \<lparr>g_messages := g_messages (channel_group_of xs k) @ [range_message_of x]\<rparr>
                    else channel_group_of xs k)) ks"
  by (simp add: append_message_def comp_def)

lemma group_step_grouped:
  assumes "\<not> isl (fromisoformat (m_created_at x))"
  shows "group_step (grouped_first_seen xs) x = Inr (grouped_first_seen (xs @ [x]))"
proof (cases "m_channel_id x \<in> set (map m_channel_id xs)")
  case True
  have keys: "first_seen (map m_channel_id (xs @ [x])) = first_seen (map m_channel_id xs)"
    using True by (simp add: first_seen_snoc)
  have each: "(if k = m_channel_id x
         then (channel_group_of xs k)
                \<lparr>g_messages := g_messages (channel_group_of xs k) @ [range_message_of x]\<rparr>
         else channel_group_of xs k) = channel_group_of (xs @ [x]) k" for k
    using True by (simp add: channel_group_of_old channel_group_of_other)
  have "append_message (grouped_first_seen xs) (m_channel_id x) (range_message_of x)
      = grouped_first_seen (xs @ [x])"
    unfolding grouped_first_seen_def append_message_grouped keys each ..
  with True show ?thesis
    by (simp add: group_step_ok [OF assms] grouped_first_seen_keys)
next
  case False
  have "append_message (grouped_first_seen xs @ [(m_channel_id x, new_group x)])
          (m_channel_id x) (range_message_of x)
      = grouped_first_seen (xs @ [x])"
  proof -
    have "append_message (grouped_first_seen xs) (m_channel_id x) (range_message_of x)
        = map (\<lambda>k. (k, channel_group_of (xs @ [x]) k)) (first_seen (map m_channel_id xs))"
      unfolding grouped_first_seen_def append_message_grouped
    proof (intro map_cong refl)
      fix k assume "k \<in> set (first_seen (map m_channel_id xs))"
      with False have "k \<noteq> m_channel_id x"
        unfolding first_seen_set by blast
      then show "(k, if k = m_channel_id x
                     then (channel_group_of xs k)
                            \<lparr>g_messages := g_messages (channel_group_of xs k) @ [range_message_of x]\<rparr>
                     else channel_group_of xs k) = (k, channel_group_of (xs @ [x]) k)"
        by (simp add: channel_group_of_other)
    qed
    moreover have "append_message [(m_channel_id x, new_group x)] (m_channel_id x)
          (range_message_of x)
        = [(m_channel_id x, channel_group_of (xs @ [x]) (m_channel_id x))]"
      using False by (simp add: append_message_def channel_group_of_new new_group_def)
    ultimately show ?thesis
      using False
      by (simp add: grouped_first_seen_def first_seen_snoc append_message_def)
  qed
  with False show ?thesis
    by (simp add: group_step_ok [OF assms] grouped_first_seen_keys)
qed

lemma group_rows_grouped:
  "\<forall>r \<in> set rows. \<not> isl (fromisoformat (m_created_at r)) \<Longrightarrow>
   group_rows [] rows = Inr (grouped_first_seen rows)"
proof (induction rows rule: rev_induct)
  case Nil
  show ?case by (simp add: grouped_first_seen_def)
next
  case (snoc x xs)
  then show ?case
    by (simp add: group_rows_snoc group_step_grouped)
qed

lemma sorted_fst_of_pairs:
  "sorted (map (\<lambda>r. (f r, g r)) xs) \<Longrightarrow> sorted (map f xs)"
  unfolding sorted_map by (erule sorted_wrt_mono_rel [rotated]) auto

lemma sorted_snd_within_fst:
  assumes "sorted (map (\<lambda>r. (f r, g r)) xs)"
  shows "sorted (map g (filter (\<lambda>r. f r = k) xs))"
proof -
  from assms have "sorted_wrt (\<lambda>x y. (f x, g x) \<le> (f y, g y)) (filter (\<lambda>r. f r = k) xs)"
    unfolding sorted_map by (rule sorted_wrt_filter)
  then show ?thesis
    unfolding sorted_map by (rule sorted_wrt_mono_rel [rotated]) auto
qed

subsection \<open>All channels in a time range\<close>

text \<open>
  Claim C2. Let the engine be healthy and every stored \<open>created_at\<close> readable. Then there
  is a scan of exactly the stored rows whose \<open>created_at\<close> text lies between the ISO texts
  of \<open>start_time\<close> and \<open>end_time\<close> themselves (no shift), ascending by channel id and then
  by \<open>created_at\<close>, such that \<open>get_messages_for_time_range\<close> returns that scan grouped by
  channel in first-seen order. The keys are therefore ascending and without repetition,
  they are the channel ids of the matching rows, and the entry of a key \<open>k\<close> carries \<open>k\<close>,
  the channel and guild columns of the first matching row of \<open>k\<close> in the scan, and one
  message for each of exactly the matching rows of \<open>k\<close>, ascending by \<open>created_at\<close>. A
  message has seven entries: the id, the author id, the author name and the content of its
  row, the \<open>created_at\<close> text read back as a datetime, and the two flags as booleans, true
  when the column is not zero.
\<close>

theorem time_range_grouped:
  assumes "fault eng = None" and "parseable_db db"
  shows "\<exists>scan.
           mset scan =
             filter_mset (\<lambda>r. isoformat start_time \<le> m_created_at r \<and>
                               m_created_at r \<le> isoformat end_time) (mset (messages db)) \<and>
           sorted (map (\<lambda>r. (m_channel_id r, m_created_at r)) scan) \<and>
           get_messages_for_time_range eng db start_time end_time
             = Inr (grouped_first_seen scan) \<and>
           sorted (map fst (grouped_first_seen scan)) \<and>
           distinct (map fst (grouped_first_seen scan)) \<and>
           set (map fst (grouped_first_seen scan)) =
             m_channel_id ` {r \<in> set (messages db).
                isoformat start_time \<le> m_created_at r \<and> m_created_at r \<le> isoformat end_time} \<and>
           (\<forall>(k, g) \<in> set (grouped_first_seen scan).
              \<exists>rows. rows \<noteq> [] \<and>
                mset rows =
                  filter_mset (\<lambda>r. m_channel_id r = k \<and> isoformat start_time \<le> m_created_at r \<and>
                                    m_created_at r \<le> isoformat end_time) (mset (messages db)) \<and>
                sorted (map m_created_at rows) \<and>
                g = \<lparr>g_channel_id = k, g_channel_name = m_channel_name (hd rows),
                     g_guild_id = m_guild_id (hd rows), g_guild_name = m_guild_name (hd rows),
                     g_messages =
                       map (\<lambda>r. \<lparr>rm_id = m_id r, rm_author_id = m_author_id r,
                                  rm_author_name = m_author_name r, rm_content = m_content r,
                                  rm_created_at = projr (fromisoformat (m_created_at r)),
                                  rm_is_bot = (m_is_bot r \<noteq> 0),
                                  rm_is_command = (m_is_command r \<noteq> 0)\<rparr>) rows\<rparr>)"
proof -
  have rmo: "range_message_of =
      (\<lambda>r. \<lparr>rm_id = m_id r, rm_author_id = m_author_id r,
             rm_author_name = m_author_name r, rm_content = m_content r,
             rm_created_at = projr (fromisoformat (m_created_at r)),
             rm_is_bot = (m_is_bot r \<noteq> 0), rm_is_command = (m_is_command r \<noteq> 0)\<rparr>)"
    by (rule ext) (simp add: range_message_of_def)
  let ?R = "\<lambda>r. isoformat start_time \<le> m_created_at r \<and> m_created_at r \<le> isoformat end_time"
  let ?key = "\<lambda>r. (m_channel_id r, m_created_at r)"
  let ?scan = "sort_key ?key (filter ?R (messages db))"
  have m: "mset ?scan = filter_mset ?R (mset (messages db))"
    by simp
  have s: "sorted (map ?key ?scan)"
    by (rule sorted_sort_key)
  have "\<forall>r \<in> set ?scan. \<not> isl (fromisoformat (m_created_at r))"
    using assms(2) by (simp add: parseable_db_def)
  then have "group_rows [] ?scan = Inr (grouped_first_seen ?scan)"
    by (rule group_rows_grouped)
  then have r: "get_messages_for_time_range eng db start_time end_time
      = Inr (grouped_first_seen ?scan)"
    using assms(1)
    by (simp add: get_messages_for_time_range_def get_messages_for_time_range_try_def
        get_connection_simps Let_def)
  have ks: "sorted (map fst (grouped_first_seen ?scan))"
    unfolding grouped_first_seen_keys
    by (rule first_seen_sorted) (rule sorted_fst_of_pairs [OF s])
  have kd: "distinct (map fst (grouped_first_seen ?scan))"
    unfolding grouped_first_seen_keys by simp
  have kset: "set (map fst (grouped_first_seen ?scan)) =
      m_channel_id ` {r \<in> set (messages db). ?R r}"
    unfolding grouped_first_seen_keys by auto
  have each: "\<exists>rows. rows \<noteq> [] \<and>
        mset rows = filter_mset (\<lambda>r. m_channel_id r = k \<and> ?R r) (mset (messages db)) \<and>
        sorted (map m_created_at rows) \<and>
        g = \<lparr>g_channel_id = k, g_channel_name = m_channel_name (hd rows),
             g_guild_id = m_guild_id (hd rows), g_guild_name = m_guild_name (hd rows),
             g_messages =
               map (\<lambda>r. \<lparr>rm_id = m_id r, rm_author_id = m_author_id r,
                          rm_author_name = m_author_name r, rm_content = m_content r,
                          rm_created_at = projr (fromisoformat (m_created_at r)),
                          rm_is_bot = (m_is_bot r \<noteq> 0),
                          rm_is_command = (m_is_command r \<noteq> 0)\<rparr>) rows\<rparr>"
    if kg: "(k, g) \<in> set (grouped_first_seen ?scan)" for k g
  proof -
    let ?rows = "filter (\<lambda>r. m_channel_id r = k) ?scan"
    from kg have k: "k \<in> set (map m_channel_id ?scan)" and g: "g = channel_group_of ?scan k"
      by (auto simp: grouped_first_seen_def)
    from k obtain r where "r \<in> set ?scan" "m_channel_id r = k"
      by auto
    then have "r \<in> set ?rows"
      by simp
    then have ne: "?rows \<noteq> []"
      by (metis empty_iff list.set(1))
    have ms: "mset ?rows = filter_mset (\<lambda>r. m_channel_id r = k \<and> ?R r) (mset (messages db))"
      by (simp add: filter_filter_mset conj_commute)
    have so: "sorted (map m_created_at ?rows)"
      by (rule sorted_snd_within_fst [OF s])
    have "g = \<lparr>g_channel_id = k, g_channel_name = m_channel_name (hd ?rows),
             g_guild_id = m_guild_id (hd ?rows), g_guild_name = m_guild_name (hd ?rows),
             g_messages =
               map (\<lambda>r. \<lparr>rm_id = m_id r, rm_author_id = m_author_id r,
                          rm_author_name = m_author_name r, rm_content = m_content r,
                          rm_created_at = projr (fromisoformat (m_created_at r)),
                          rm_is_bot = (m_is_bot r \<noteq> 0),
                          rm_is_command = (m_is_command r \<noteq> 0)\<rparr>) ?rows\<rparr>"
      unfolding g channel_group_of_def Let_def rmo ..
    with ne ms so show ?thesis
      by blast
  qed
  from m s r ks kd kset each show ?thesis
    by (intro exI [of _ ?scan]) blast
qed

lemma isoformat_jan1: "isoformat (stamp 2024 1 1 0) = ''2024-01-01T00:00:00''"
  by code_simp

theorem time_range_grouped_witness:
  "fault engine_ok = None \<and> parseable_db varied_db \<and>
   (\<exists>scan.
      mset scan =
        filter_mset (\<lambda>r. ''2024-01-01T00:00:00'' \<le> m_created_at r \<and>
                          m_created_at r \<le> ''2024-01-02T00:00:00'') (mset (messages varied_db)) \<and>
      sorted (map (\<lambda>r. (m_channel_id r, m_created_at r)) scan) \<and>
      get_messages_for_time_range engine_ok varied_db (stamp 2024 1 1 0) (stamp 2024 1 2 0)
        = Inr (grouped_first_seen scan) \<and>
      sorted (map fst (grouped_first_seen scan)) \<and>
      distinct (map fst (grouped_first_seen scan))) \<and>
   get_messages_for_time_range engine_ok varied_db (stamp 2024 1 1 0) (stamp 2024 1 2 0)
   = Inr [(''c1'',
           \<lparr>g_channel_id = ''c1'', g_channel_name = ''general'', g_guild_id = None,
            g_guild_name = None,
            g_messages =
              [\<lparr>rm_id = ''v3'', rm_author_id = ''u3'', rm_author_name = ''cy'',
                rm_content = ''/bye'',
                rm_created_at = \<lparr>year = 2024, month = 1, day = 1, hour = 3, minute = 0,
                                  second = 0, microsecond = 0, tzinfo = None\<rparr>,
                rm_is_bot = False, rm_is_command = True\<rparr>]\<rparr>),
          (''c2'',
           \<lparr>g_channel_id = ''c2'', g_channel_name = ''dev'', g_guild_id = Some ''g1'',
            g_guild_name = Some ''guild'',
            g_messages =
              [\<lparr>rm_id = ''v2'', rm_author_id = ''u1'', rm_author_name = ''ann'',
                rm_content = ''hello'',
                rm_created_at = \<lparr>year = 2024, month = 1, day = 1, hour = 3, minute = 0,
                                  second = 0, microsecond = 0, tzinfo = Some 0\<rparr>,
                rm_is_bot = False, rm_is_command = False\<rparr>,
               \<lparr>rm_id = ''v6'', rm_author_id = ''u3'', rm_author_name = ''cy'',
                rm_content = ''ping'',
                rm_created_at = \<lparr>year = 2024, month = 1, day = 1, hour = 5, minute = 0,
                                  second = 0, microsecond = 0, tzinfo = None\<rparr>,
                rm_is_bot = True, rm_is_command = False\<rparr>,
               \<lparr>rm_id = ''v1'', rm_author_id = ''u2'', rm_author_name = ''bot'',
                rm_content = ''/sum-day'',
                rm_created_at = \<lparr>year = 2024, month = 1, day = 1, hour = 9, minute = 30,
                                  second = 0, microsecond = 250000, tzinfo = Some 0\<rparr>,
                rm_is_bot = True, rm_is_command = True\<rparr>]\<rparr>)]"
proof -
  have ok: "fault engine_ok = None"
    by (simp add: engine_ok_def)
  have v: "get_messages_for_time_range engine_ok varied_db (stamp 2024 1 1 0) (stamp 2024 1 2 0)
   = Inr [(''c1'',
           \<lparr>g_channel_id = ''c1'', g_channel_name = ''general'', g_guild_id = None,
            g_guild_name = None,
            g_messages =
              [\<lparr>rm_id = ''v3'', rm_author_id = ''u3'', rm_author_name = ''cy'',
                rm_content = ''/bye'',
                rm_created_at = \<lparr>year = 2024, month = 1, day = 1, hour = 3, minute = 0,
                                  second = 0, microsecond = 0, tzinfo = None\<rparr>,
                rm_is_bot = False, rm_is_command = True\<rparr>]\<rparr>),
          (''c2'',
           \<lparr>g_channel_id = ''c2'', g_channel_name = ''dev'', g_guild_id = Some ''g1'',
            g_guild_name = Some ''guild'',
            g_messages =
              [\<lparr>rm_id = ''v2'', rm_author_id = ''u1'', rm_author_name = ''ann'',
                rm_content = ''hello'',
                rm_created_at = \<lparr>year = 2024, month = 1, day = 1, hour = 3, minute = 0,
                                  second = 0, microsecond = 0, tzinfo = Some 0\<rparr>,
                rm_is_bot = False, rm_is_command = False\<rparr>,
               \<lparr>rm_id = ''v6'', rm_author_id = ''u3'', rm_author_name = ''cy'',
                rm_content = ''ping'',
                rm_created_at = \<lparr>year = 2024, month = 1, day = 1, hour = 5, minute = 0,
                                  second = 0, microsecond = 0, tzinfo = None\<rparr>,
                rm_is_bot = True, rm_is_command = False\<rparr>,
               \<lparr>rm_id = ''v1'', rm_author_id = ''u2'', rm_author_name = ''bot'',
                rm_content = ''/sum-day'',
                rm_created_at = \<lparr>year = 2024, month = 1, day = 1, hour = 9, minute = 30,
                                  second = 0, microsecond = 250000, tzinfo = Some 0\<rparr>,
                rm_is_bot = True, rm_is_command = True\<rparr>]\<rparr>)]"
    by code_simp
  from time_range_grouped [OF ok parseable_varied_db, of "stamp 2024 1 1 0" "stamp 2024 1 2 0"]
  obtain scan where
    "mset scan =
        filter_mset (\<lambda>r. ''2024-01-01T00:00:00'' \<le> m_created_at r \<and>
                          m_created_at r \<le> ''2024-01-02T00:00:00'') (mset (messages varied_db))"
    "sorted (map (\<lambda>r. (m_channel_id r, m_created_at r)) scan)"
    "get_messages_for_time_range engine_ok varied_db (stamp 2024 1 1 0) (stamp 2024 1 2 0)
        = Inr (grouped_first_seen scan)"
    "sorted (map fst (grouped_first_seen scan))"
    "distinct (map fst (grouped_first_seen scan))"
    unfolding isoformat_jan1 isoformat_jan2 by blast
  with ok parseable_varied_db v show ?thesis
    by blast
qed

subsection \<open>Active channels\<close>

lemma group_by_channel_ids:
  assumes "\<forall>g. g \<noteq> [] \<longrightarrow> bare_row eng g \<in> set g"
  shows "map ac_channel_id (group_by_channel eng rows) = sort (remdups (map m_channel_id rows))"
proof -
  have "ac_channel_id
          (let g = filter (\<lambda>r. m_channel_id r = k) rows; b = bare_row eng g
           in \<lparr>ac_channel_id = m_channel_id b, ac_channel_name = m_channel_name b,
               ac_guild_id = m_guild_id b, ac_guild_name = m_guild_name b,
               ac_message_count = int (length g)\<rparr>) = k"
    if "k \<in> set (sort (remdups (map m_channel_id rows)))" for k
  proof -
    from that obtain r where "r \<in> set rows" "m_channel_id r = k"
      by auto
    then have "r \<in> set (filter (\<lambda>r. m_channel_id r = k) rows)"
      by simp
    then have "filter (\<lambda>r. m_channel_id r = k) rows \<noteq> []"
      by (metis empty_iff list.set(1))
    with assms have "bare_row eng (filter (\<lambda>r. m_channel_id r = k) rows)
        \<in> set (filter (\<lambda>r. m_channel_id r = k) rows)"
      by blast
    then show ?thesis
      by (simp add: Let_def)
  qed
  then show ?thesis
    unfolding group_by_channel_def map_map comp_def
    by (intro map_idI)
qed

lemma group_by_channel_entry:
  assumes "\<forall>g. g \<noteq> [] \<longrightarrow> bare_row eng g \<in> set g"
    and "ch \<in> set (group_by_channel eng rows)"
  shows "\<exists>b \<in> set rows.
           ac_channel_id ch = m_channel_id b \<and> ac_channel_name ch = m_channel_name b \<and>
           ac_guild_id ch = m_guild_id b \<and> ac_guild_name ch = m_guild_name b \<and>
           ac_message_count ch =
             int (length (filter (\<lambda>r. m_channel_id r = m_channel_id b) rows))"
proof -
  from assms(2) obtain k where k: "k \<in> set (map m_channel_id rows)"
    and ch: "ch = (let g = filter (\<lambda>r. m_channel_id r = k) rows; b = bare_row eng g
           in \<lparr>ac_channel_id = m_channel_id b, ac_channel_name = m_channel_name b,
               ac_guild_id = m_guild_id b, ac_guild_name = m_guild_name b,
               ac_message_count = int (length g)\<rparr>)"
    by (auto simp: group_by_channel_def)
  let ?g = "filter (\<lambda>r. m_channel_id r = k) rows"
  from k obtain r where "r \<in> set rows" "m_channel_id r = k"
    by auto
  then have "r \<in> set ?g"
    by simp
  then have "?g \<noteq> []"
    by (metis empty_iff list.set(1))
  with assms(1) have b: "bare_row eng ?g \<in> set ?g"
    by blast
  then have "bare_row eng ?g \<in> set rows" "m_channel_id (bare_row eng ?g) = k"
    by simp_all
  then show ?thesis
    unfolding ch Let_def by (intro bexI [of _ "bare_row eng ?g"]) simp_all
qed

text \<open>
  Claim C6. Let the engine be healthy and pick the bare columns of a group from one of
  its rows, and let \<open>c\<close> be \<open>now\<close> minus \<open>hours\<close> hours (so the difference exists). Then
  \<open>get_active_channels\<close> returns one entry for each channel id that has a stored message
  with \<open>created_at\<close> not below the ISO text of \<open>c\<close>, and no other entry. The entry of a
  channel carries the number of such messages of the channel, which is positive, and the
  channel and guild columns of one of them. The entries come by descending count. A
  channel all of whose messages are below the cutoff has no entry.
\<close>

theorem active_channels_exact:
  assumes "fault eng = None"
    and "\<forall>g. g \<noteq> [] \<longrightarrow> bare_row eng g \<in> set g"
    and "timedelta 0 hours 0 0 0 = Inr td"
    and "dt_sub now td = Inr c"
  shows "\<exists>chs.
           get_active_channels eng db now hours = Inr chs \<and>
           distinct (map ac_channel_id chs) \<and>
           set (map ac_channel_id chs) =
             m_channel_id ` {r \<in> set (messages db). isoformat c \<le> m_created_at r} \<and>
           (\<forall>ch \<in> set chs.
              ac_message_count ch =
                int (length (filter (\<lambda>r. m_channel_id r = ac_channel_id ch \<and>
                                          isoformat c \<le> m_created_at r) (messages db))) \<and>
              0 < ac_message_count ch \<and>
              (\<exists>r \<in> set (messages db).
                 isoformat c \<le> m_created_at r \<and> m_channel_id r = ac_channel_id ch \<and>
                 m_channel_name r = ac_channel_name ch \<and> m_guild_id r = ac_guild_id ch \<and>
                 m_guild_name r = ac_guild_name ch)) \<and>
           sorted_wrt (\<lambda>a b. b \<le> a) (map ac_message_count chs) \<and>
           (\<forall>k. (\<forall>r \<in> set (messages db). m_channel_id r = k \<longrightarrow> m_created_at r < isoformat c)
                \<longrightarrow> k \<notin> set (map ac_channel_id chs))"
proof -
  let ?rows = "filter (\<lambda>r. isoformat c \<le> m_created_at r) (messages db)"
  let ?groups = "group_by_channel eng ?rows"
  let ?chs = "sort_key (\<lambda>ch. - ac_message_count ch) ?groups"
  have res: "get_active_channels eng db now hours = Inr ?chs"
    using assms(1,3,4)
    by (simp add: get_active_channels_def get_active_channels_try_def get_connection_simps)
  have ids: "map ac_channel_id ?groups = sort (remdups (map m_channel_id ?rows))"
    by (rule group_by_channel_ids [OF assms(2)])
  then have dg: "distinct (map ac_channel_id ?groups)"
    by simp
  have d: "distinct (map ac_channel_id ?chs)"
    using dg by (simp add: distinct_map)
  have "set (map ac_channel_id ?chs) = set (map ac_channel_id ?groups)"
    by simp
  also have "\<dots> = m_channel_id ` {r \<in> set (messages db). isoformat c \<le> m_created_at r}"
    unfolding ids by auto
  finally have s: "set (map ac_channel_id ?chs) =
      m_channel_id ` {r \<in> set (messages db). isoformat c \<le> m_created_at r}" .
  have each: "ac_message_count ch =
        int (length (filter (\<lambda>r. m_channel_id r = ac_channel_id ch \<and>
                                  isoformat c \<le> m_created_at r) (messages db))) \<and>
      0 < ac_message_count ch \<and>
      (\<exists>r \<in> set (messages db).
         isoformat c \<le> m_created_at r \<and> m_channel_id r = ac_channel_id ch \<and>
         m_channel_name r = ac_channel_name ch \<and> m_guild_id r = ac_guild_id ch \<and>
         m_guild_name r = ac_guild_name ch)"
    if "ch \<in> set ?chs" for ch
  proof -
    from that have "ch \<in> set ?groups"
      by simp
    from group_by_channel_entry [OF assms(2) this] obtain b where b: "b \<in> set ?rows"
      and f: "ac_channel_id ch = m_channel_id b" "ac_channel_name ch = m_channel_name b"
        "ac_guild_id ch = m_guild_id b" "ac_guild_name ch = m_guild_name b"
      and n: "ac_message_count ch =
          int (length (filter (\<lambda>r. m_channel_id r = m_channel_id b) ?rows))"
      by blast
    have same: "filter (\<lambda>r. m_channel_id r = m_channel_id b) ?rows =
        filter (\<lambda>r. m_channel_id r = ac_channel_id ch \<and> isoformat c \<le> m_created_at r)
          (messages db)"
      by (simp add: f conj_commute)
    from b have "b \<in> set (filter (\<lambda>r. m_channel_id r = m_channel_id b) ?rows)"
      by simp
    then have "0 < length (filter (\<lambda>r. m_channel_id r = m_channel_id b) ?rows)"
      by (metis length_pos_if_in_set)
    with n same b f show ?thesis
      by auto
  qed
  have "sorted (map (\<lambda>ch. - ac_message_count ch) ?chs)"
    by (rule sorted_sort_key)
  then have o: "sorted_wrt (\<lambda>a b. b \<le> a) (map ac_message_count ?chs)"
    by (simp add: sorted_map sorted_wrt_map)
  have x: "k \<notin> set (map ac_channel_id ?chs)"
    if "\<forall>r \<in> set (messages db). m_channel_id r = k \<longrightarrow> m_created_at r < isoformat c" for k
    unfolding s using that by (auto simp: not_le [symmetric])
  from res d s each o x show ?thesis
    by (intro exI [of _ ?chs]) blast
qed

lemma hours_35: "timedelta 0 35 0 0 0 = Inr 126000000000"
  by code_simp

lemma cutoff_jan1: "dt_sub (stamp 2024 1 2 12) 126000000000 = Inr (stamp 2024 1 1 1)"
  by code_simp

theorem active_channels_exact_witness:
  "fault engine_ok = None \<and>
   timedelta 0 35 0 0 0 = Inr 126000000000 \<and>
   dt_sub (stamp 2024 1 2 12) 126000000000 = Inr (stamp 2024 1 1 1) \<and>
   (\<exists>chs.
      get_active_channels engine_ok sample_db (stamp 2024 1 2 12) 35 = Inr chs \<and>
      distinct (map ac_channel_id chs) \<and>
      set (map ac_channel_id chs) =
        m_channel_id ` {r \<in> set (messages sample_db). ''2024-01-01T01:00:00'' \<le> m_created_at r} \<and>
      sorted_wrt (\<lambda>a b. b \<le> a) (map ac_message_count chs)) \<and>
   get_active_channels engine_ok sample_db (stamp 2024 1 2 12) 35
   = Inr [\<lparr>ac_channel_id = ''c2'', ac_channel_name = ''general'', ac_guild_id = None,
           ac_guild_name = None, ac_message_count = 2\<rparr>,
          \<lparr>ac_channel_id = ''c1'', ac_channel_name = ''general'', ac_guild_id = None,
           ac_guild_name = None, ac_message_count = 1\<rparr>]"
proof -
  have ok: "fault engine_ok = None"
    by (simp add: engine_ok_def)
  have pick: "\<forall>g. g \<noteq> [] \<longrightarrow> bare_row engine_ok g \<in> set g"
    by (simp add: engine_ok_def)
  have i: "isoformat (stamp 2024 1 1 1) = ''2024-01-01T01:00:00''"
    by code_simp
  have v: "get_active_channels engine_ok sample_db (stamp 2024 1 2 12) 35
   = Inr [\<lparr>ac_channel_id = ''c2'', ac_channel_name = ''general'', ac_guild_id = None,
           ac_guild_name = None, ac_message_count = 2\<rparr>,
          \<lparr>ac_channel_id = ''c1'', ac_channel_name = ''general'', ac_guild_id = None,
           ac_guild_name = None, ac_message_count = 1\<rparr>]"
    by code_simp
  from active_channels_exact [OF ok pick hours_35 cutoff_jan1, of sample_db]
  obtain chs where
    "get_active_channels engine_ok sample_db (stamp 2024 1 2 12) 35 = Inr chs"
    "distinct (map ac_channel_id chs)"
    "set (map ac_channel_id chs) =
        m_channel_id ` {r \<in> set (messages sample_db). ''2024-01-01T01:00:00'' \<le> m_created_at r}"
    "sorted_wrt (\<lambda>a b. b \<le> a) (map ac_message_count chs)"
    unfolding i by blast
  with ok hours_35 cutoff_jan1 v show ?thesis
    by blast
qed

subsection \<open>Hexadecimal escapes\<close>

lemma of_char_char_of_int: "0 \<le> n \<Longrightarrow> n < 256 \<Longrightarrow> (of_char (char_of n :: char) :: int) = n"
  by (simp add: of_char_of)

lemma char_of_neq:
  assumes "0 \<le> n" and "n < 256" and "n \<noteq> of_char c"
  shows "char_of (n :: int) \<noteq> c"
proof
  assume "char_of n = c"
  then have "(of_char (char_of n :: char) :: int) = of_char c"
    by simp
  with assms show False
    by (simp add: of_char_of)
qed

lemma hex_val_hex_char: "0 \<le> v \<Longrightarrow> v < 16 \<Longrightarrow> hex_val (hex_char v) = Some v"
  by (simp add: hex_val_def hex_char_def of_char_of Let_def)

lemma parse_hex_append:
  "parse_hex acc (xs @ ys) = (case parse_hex acc xs of None \<Rightarrow> None | Some a \<Rightarrow> parse_hex a ys)"
  by (induction xs arbitrary: acc) (auto split: option.splits)

lemma parse_hex_zhex:
  "0 \<le> n \<Longrightarrow> n < 16 ^ k \<Longrightarrow> parse_hex acc (zhex k n) = Some (acc * 16 ^ k + n)"
proof (induction k arbitrary: n acc)
  case 0
  then show ?case by simp
next
  case (Suc k)
  have "n div 16 < m" if "n < 16 * m" for m :: int
    using that by presburger
  with Suc.prems have "0 \<le> n div 16" "n div 16 < 16 ^ k"
    by (simp_all add: pos_imp_zdiv_nonneg_iff)
  then have "parse_hex acc (zhex k (n div 16)) = Some (acc * 16 ^ k + n div 16)"
    by (rule Suc.IH)
  moreover have "0 \<le> n mod 16" "n mod 16 < 16"
    by simp_all
  ultimately show ?case
    by (simp add: parse_hex_append hex_val_hex_char algebra_simps)
qed

lemma length_zhex [simp]: "length (zhex k n) = k"
  by (induction k arbitrary: n) simp_all

lemma decode_uXXXX_zhex:
  "0 \<le> n \<Longrightarrow> n < 65536 \<Longrightarrow> decode_uXXXX (zhex 4 n @ rest) = Some n"
  using parse_hex_zhex [of n 4 0] by (simp add: decode_uXXXX_def)

subsection \<open>Reading back an encoded string\<close>

lemma BACKSLASH_not_QUOTE [simp]: "BACKSLASH \<noteq> QUOTE" "CHR ''u'' \<noteq> QUOTE"
  by (simp_all add: BACKSLASH_def QUOTE_def)

lemma scanstring_u_prefix:
  "scanstring (BACKSLASH # CHR ''u'' # zhex 4 n @ rest) =
     (case decode_uXXXX (zhex 4 n @ rest) of
        None \<Rightarrow> Inl ValueError
      | Some uni \<Rightarrow>
          if 0xD800 \<le> uni \<and> uni \<le> 0xDBFF \<and> take 2 rest = [BACKSLASH, CHR ''u'']
          then (case decode_uXXXX (drop 2 rest) of
                  None \<Rightarrow> Inl ValueError
                | Some uni2 \<Rightarrow>
                    if 0xDC00 \<le> uni2 \<and> uni2 \<le> 0xDFFF
                    then cons_result (0x10000 + ((uni - 0xD800) * 1024 + (uni2 - 0xDC00)))
                           (scanstring (drop 6 rest))
                    else cons_result uni (scanstring rest))
          else cons_result uni (scanstring rest))"
  by (simp add: Let_def split: option.splits)

lemma scanstring_u_escape:
  assumes "0 \<le> n" and "n < 65536" and "\<not> (0xD800 \<le> n \<and> n \<le> 0xDBFF)"
  shows "scanstring (u_escape n @ rest) = cons_result n (scanstring rest)"
proof -
  have "decode_uXXXX (zhex 4 n @ rest) = Some n"
    using assms by (intro decode_uXXXX_zhex)
  with assms(3) show ?thesis
    unfolding u_escape_def append_Cons append_Nil scanstring_u_prefix by auto
qed

lemma scanstring_surrogate_pair:
  assumes "0xD800 \<le> s1" and "s1 \<le> 0xDBFF" and "0xDC00 \<le> s2" and "s2 \<le> 0xDFFF"
  shows "scanstring (u_escape s1 @ u_escape s2 @ rest)
         = cons_result (0x10000 + ((s1 - 0xD800) * 1024 + (s2 - 0xDC00))) (scanstring rest)"
proof -
  let ?tail = "BACKSLASH # CHR ''u'' # zhex 4 s2 @ rest"
  have d1: "decode_uXXXX (zhex 4 s1 @ ?tail) = Some s1"
    using assms by (intro decode_uXXXX_zhex) simp_all
  have d2: "decode_uXXXX (drop 2 ?tail) = Some s2"
    using assms by (simp add: decode_uXXXX_zhex)
  have t: "take 2 ?tail = [BACKSLASH, CHR ''u'']" "drop 6 ?tail = rest"
    by simp_all
  have "scanstring (BACKSLASH # CHR ''u'' # zhex 4 s1 @ ?tail)
      = cons_result (0x10000 + ((s1 - 0xD800) * 1024 + (s2 - 0xDC00))) (scanstring rest)"
    unfolding scanstring_u_prefix d1 d2 t using assms by simp
  then show ?thesis
    by (simp add: u_escape_def)
qed

lemma scanstring_escape_char:
  assumes "0 \<le> c" and "c < 0x110000" and "\<not> (0xD800 \<le> c \<and> c \<le> 0xDFFF)"
  shows "scanstring (escape_char c @ rest) = cons_result c (scanstring rest)"
proof -
  consider (short) "c \<in> {0x22, 0x5C, 0x0A, 0x0D, 0x09, 0x08, 0x0C}"
    | (plain) "0x20 \<le> c" "c \<le> 0x7E" "c \<noteq> 0x22" "c \<noteq> 0x5C"
    | (bmp) "c \<notin> {0x22, 0x5C, 0x0A, 0x0D, 0x09, 0x08, 0x0C}" "\<not> (0x20 \<le> c \<and> c \<le> 0x7E)"
        "c < 0x10000"
    | (astral) "0x10000 \<le> c"
    by fastforce
  then show ?thesis
  proof cases
    case short
    then show ?thesis
      by (auto simp: escape_char_def BACKSLASH_def QUOTE_def backslash_char_def)
  next
    case plain
    then have "char_of c \<noteq> QUOTE" "char_of c \<noteq> BACKSLASH"
      unfolding QUOTE_def BACKSLASH_def by (intro char_of_neq; simp)+
    with plain show ?thesis
      by (simp add: escape_char_def of_char_of)
  next
    case bmp
    with assms have "scanstring (u_escape c @ rest) = cons_result c (scanstring rest)"
      by (intro scanstring_u_escape) auto
    moreover from bmp have "escape_char c = u_escape c"
      by (auto simp: escape_char_def)
    ultimately show ?thesis
      by simp
  next
    case astral
    let ?n = "c - 0x10000"
    let ?s1 = "0xD800 + (?n div 1024) mod 1024"
    let ?s2 = "0xDC00 + ?n mod 1024"
    from astral assms(2) have n: "0 \<le> ?n" "?n < 1048576"
      by simp_all
    then have hi: "(?n div 1024) mod 1024 = ?n div 1024"
      by simp
    have "scanstring (u_escape ?s1 @ u_escape ?s2 @ rest)
        = cons_result (0x10000 + ((?s1 - 0xD800) * 1024 + (?s2 - 0xDC00))) (scanstring rest)"
      using n by (intro scanstring_surrogate_pair) simp_all
    moreover have "0x10000 + ((?s1 - 0xD800) * 1024 + (?s2 - 0xDC00)) = c"
      unfolding hi by simp
    moreover from astral have "escape_char c = u_escape ?s1 @ u_escape ?s2"
      by (simp add: escape_char_def Let_def)
    ultimately show ?thesis
      by simp
  qed
qed

lemma cons_result_Inr [simp]: "cons_result c (Inr (cs, rest)) = Inr (c # cs, rest)"
  by (simp add: cons_result_def)

lemma scanstring_encoded:
  "unicode_text s \<Longrightarrow> scanstring (concat (map escape_char s) @ QUOTE # rest) = Inr (s, rest)"
proof (induction s)
  case Nil
  show ?case by simp
next
  case (Cons c s)
  then have "unicode_text s" and c: "0 \<le> c" "c < 0x110000" "\<not> (0xD800 \<le> c \<and> c \<le> 0xDFFF)"
    by (simp_all add: unicode_text_def)
  then have "scanstring (concat (map escape_char s) @ QUOTE # rest) = Inr (s, rest)"
    using Cons.IH by simp
  then show ?case
    using scanstring_escape_char [OF c, of "concat (map escape_char s) @ QUOTE # rest"]
    by simp
qed

subsection \<open>Reading back an encoded list of strings\<close>

lemma skip_ws_stops [simp]:
  "skip_ws (QUOTE # r) = QUOTE # r"
  "skip_ws (CHR '','' # r) = CHR '','' # r"
  "skip_ws (CHR '']'' # r) = CHR '']'' # r"
  "skip_ws (CHR ''['' # r) = CHR ''['' # r"
  by (simp_all add: QUOTE_def)

lemma QUOTE_not_bracket [simp]: "QUOTE \<noteq> CHR '']''" "QUOTE \<noteq> CHR '',''"
  by (simp_all add: QUOTE_def)

lemma parse_elems_encoded:
  assumes "unicode_text x"
  shows "parse_elems (encode_basestring_ascii x @ rest) =
           (case skip_ws rest of
              [] \<Rightarrow> Inl ValueError
            | d # r2 \<Rightarrow>
                if d = CHR '','' then
                  (case parse_elems (skip_ws r2) of
                     Inl e \<Rightarrow> Inl e
                   | Inr (xs, r3) \<Rightarrow> Inr (x # xs, r3))
                else if d = CHR '']'' then Inr ([x], r2)
                else Inl ValueError)"
  using scanstring_encoded [OF assms, of rest]
  by (simp add: encode_basestring_ascii_def)

lemma join_encoded_starts_with_quote:
  "\<exists>t. join sep (map encode_basestring_ascii (y # ys)) = QUOTE # t"
  by (cases ys) (simp_all add: encode_basestring_ascii_def)

lemma skip_ws_space: "skip_ws (CHR '' '' # r) = skip_ws r"
  by simp

lemma parse_elems_join:
  assumes "L \<noteq> []" and "\<forall>s \<in> set L. unicode_text s"
  shows "parse_elems (join '', '' (map encode_basestring_ascii L) @ CHR '']'' # rest)
         = Inr (L, rest)"
  using assms
proof (induction L rule: list_nonempty_induct)
  case (single x)
  then show ?case
    by (simp add: parse_elems_encoded)
next
  case (cons x xs)
  define J where "J = join '', '' (map encode_basestring_ascii xs)"
  from cons.hyps obtain y ys where xs: "xs = y # ys"
    by (cases xs) auto
  obtain t where t: "J = QUOTE # t"
    unfolding J_def xs using join_encoded_starts_with_quote by blast
  from cons have ih: "parse_elems (J @ CHR '']'' # rest) = Inr (xs, rest)"
    by (simp add: J_def)
  from cons.prems have ux: "unicode_text x"
    by simp
  have sw: "skip_ws (J @ CHR '']'' # rest) = J @ CHR '']'' # rest"
    unfolding t append_Cons skip_ws_stops ..
  have "parse_elems (encode_basestring_ascii x @ (CHR '','' # CHR '' '' # J @ CHR '']'' # rest))
      = Inr (x # xs, rest)"
    by (simp add: parse_elems_encoded [OF ux] sw ih)
  moreover have "join '', '' (map encode_basestring_ascii (x # xs)) =
      encode_basestring_ascii x @ CHR '','' # CHR '' '' # J"
    by (simp add: xs J_def)
  ultimately show ?case
    by simp
qed

lemma json_text_names:
  "json_text (JArr (map JStr L)) = ''['' @ join '', '' (map encode_basestring_ascii L) @ '']''"
  by (simp add: comp_def)

lemma loads_dumps_names:
  assumes "\<forall>s \<in> set L. unicode_text s"
  shows "dumps (JArr (map JStr L)) = Inr (json_text (JArr (map JStr L)))"
    and "loads_str_list (json_text (JArr (map JStr L))) = Inr L"
proof -
  show "dumps (JArr (map JStr L)) = Inr (json_text (JArr (map JStr L)))"
    by (auto simp: dumps_def)
  show "loads_str_list (json_text (JArr (map JStr L))) = Inr L"
  proof (cases L)
    case Nil
    then show ?thesis
      by (simp add: loads_str_list_def finish_loads_def)
  next
    case (Cons y ys)
    then obtain t where t: "join '', '' (map encode_basestring_ascii L) = QUOTE # t"
      using join_encoded_starts_with_quote by blast
    from Cons assms have "parse_elems (join '', '' (map encode_basestring_ascii L) @ CHR '']'' # [])
        = Inr (L, [])"
      by (intro parse_elems_join) simp_all
    then have p: "parse_elems (QUOTE # t @ '']'') = Inr (L, [])"
      by (simp add: t)
    have "loads_str_list (CHR ''['' # QUOTE # t @ '']'') = Inr L"
      unfolding loads_str_list_def skip_ws_stops list.case p
      by (simp add: finish_loads_def)
    then show ?thesis
      unfolding json_text_names t by simp
  qed
qed

subsection \<open>The stored list of active users\<close>

text \<open>
  Claim C7. Let every name of the list be Unicode text. When \<open>store_channel_summary\<close>
  succeeds, the row it has added, the last of the table, holds the length of the list in
  \<^verbatim>\<open>active_users\<close>, and the text in \<^verbatim>\<open>active_users_list\<close> read as JSON is the list again.
\<close>

theorem active_users_round_trip:
  assumes "\<forall>s \<in> set active_users. unicode_text s"
    and "store_channel_summary eng db now channel_id channel_name date summary_text
           message_count active_users guild_id guild_name metadata = Inr (True, db')"
  shows "channel_summaries db' \<noteq> [] \<and>
         butlast (channel_summaries db') = channel_summaries db \<and>
         s_active_users (last (channel_summaries db')) = int (length active_users) \<and>
         loads_str_list (s_active_users_list (last (channel_summaries db'))) = Inr active_users"
proof -
  from assms(2) have "store_channel_summary_try eng db now channel_id channel_name date
      summary_text message_count active_users guild_id guild_name metadata = Inr db'"
    by (auto simp: store_channel_summary_def split: sum.splits)
  then have "channel_summaries db' \<noteq> [] \<and>
      butlast (channel_summaries db') = channel_summaries db \<and>
      s_active_users (last (channel_summaries db')) = int (length active_users) \<and>
      s_active_users_list (last (channel_summaries db')) = json_text (JArr (map JStr active_users))"
    unfolding store_channel_summary_try_def loads_dumps_names(1) [OF assms(1)]
    by (auto simp: bind_err_def insert_channel_summary_def Let_def
        split: sum.splits if_splits)
  with loads_dumps_names(2) [OF assms(1)] show ?thesis
    by simp
qed

theorem active_users_round_trip_witness:
  "unicode_text [97] \<and> unicode_text [98, 0x1F600] \<and> unicode_text [99] \<and>
   (\<exists>db'. store_channel_summary engine_ok sample_db (stamp 2024 1 3 8) ''c1'' ''general''
            (stamp 2024 1 2 0) ''quiet day'' 2 [[97], [98, 0x1F600], [99]] None None None
            = Inr (True, db') \<and>
          s_active_users (last (channel_summaries db')) = 3 \<and>
          s_active_users_list (last (channel_summaries db')) =
            [CHR ''['', QUOTE, CHR ''a'', QUOTE, CHR '','', CHR '' '',
             QUOTE, CHR ''b'', BACKSLASH, CHR ''u'', CHR ''d'', CHR ''8'', CHR ''3'', CHR ''d'',
             BACKSLASH, CHR ''u'', CHR ''d'', CHR ''e'', CHR ''0'', CHR ''0'', QUOTE,
             CHR '','', CHR '' '', QUOTE, CHR ''c'', QUOTE, CHR '']''] \<and>
          loads_str_list (s_active_users_list (last (channel_summaries db')))
            = Inr [[97], [98, 0x1F600], [99]])"
proof -
  have u: "\<forall>s \<in> set [[97], [98, 0x1F600], [99]]. unicode_text s"
    by (simp add: unicode_text_def)
  have t: "json_text (JArr (map JStr [[97], [98, 0x1F600], [99]])) =
      [CHR ''['', QUOTE, CHR ''a'', QUOTE, CHR '','', CHR '' '',
       QUOTE, CHR ''b'', BACKSLASH, CHR ''u'', CHR ''d'', CHR ''8'', CHR ''3'', CHR ''d'',
       BACKSLASH, CHR ''u'', CHR ''d'', CHR ''e'', CHR ''0'', CHR ''0'', QUOTE,
       CHR '','', CHR '' '', QUOTE, CHR ''c'', QUOTE, CHR '']'']"
    by code_simp
  obtain db' where s: "store_channel_summary engine_ok sample_db (stamp 2024 1 3 8) ''c1''
      ''general'' (stamp 2024 1 2 0) ''quiet day'' 2 [[97], [98, 0x1F600], [99]] None None None
      = Inr (True, db')"
    and l: "s_active_users_list (last (channel_summaries db')) =
      json_text (JArr (map JStr [[97], [98, 0x1F600], [99]]))"
    by (simp add: store_channel_summary_def store_channel_summary_try_def dumps_def
        metadata_json_of_def get_connection_simps insert_channel_summary_def INT64_MAX_def
        engine_ok_def sample_db_def del: json_text.simps)
  from active_users_round_trip [OF u s] s l u show ?thesis
    unfolding t by auto
qed

subsection \<open>Exceptions that reach the caller\<close>

lemma week_delta: "timedelta 6 23 59 59 999999 = Inr 604799999999"
  by code_simp

text \<open>
  Claim C5, at the input where it fails. \<open>get_channel_messages_for_week\<close> adds six days,
  23:59:59.999999 to its argument before it enters any \<^verbatim>\<open>try\<close> block. For a week that
  starts on 26 December 9999, a datetime Python can hold, the sum is past the last day of
  year 9999: the \<^verbatim>\<open>OverflowError\<close> leaves the function, whatever the engine and the store.
\<close>

theorem week_overflow_reaches_caller:
  "valid_datetime (stamp 9999 12 26 0) \<and>
   get_channel_messages_for_week eng db channel_id (stamp 9999 12 26 0) = Inl OverflowError"
proof -
  have v: "valid_datetime (stamp 9999 12 26 0)"
    by code_simp
  have "dt_add (stamp 9999 12 26 0) 604799999999 = Inl OverflowError"
    by code_simp
  then have "get_channel_messages_for_week eng db channel_id (stamp 9999 12 26 0)
      = Inl OverflowError"
    by (simp add: get_channel_messages_for_week_def week_delta)
  with v show ?thesis ..
qed

text \<open>
  The same overflow inside \<open>get_channel_messages_for_timeframe\<close>, whose sums stand in the
  \<^verbatim>\<open>try\<close> block, gives the empty list.
\<close>

lemma timeframe_overflow_is_empty:
  "get_channel_messages_for_timeframe eng db channel_id (stamp 2024 1 1 0) (stamp 9999 12 31 23)
   = Inr []"
proof -
  have "dt_add (stamp 9999 12 31 23) (5 * 3600000000) = Inl OverflowError"
    by code_simp
  then show ?thesis
    by (cases "dt_add (stamp 2024 1 1 0) (5 * 3600000000)")
      (simp_all add: get_channel_messages_for_timeframe_def
        get_channel_messages_for_timeframe_try_def timedelta_five_hours)
qed

text \<open>
  Every other operation returns without raising, for every input, store and engine, and
  so does the week wrapper whenever the end of its week exists. When the engine fails,
  each returns its sentinel and leaves the store as it was.
\<close>

lemma timeframe_never_raises:
  "\<exists>ms. get_channel_messages_for_timeframe eng db channel_id start_date end_date = Inr ms"
  by (auto simp: get_channel_messages_for_timeframe_def split: sum.splits)

theorem operations_never_raise:
  "(\<exists>ok db'. store_message eng db message_id author_id author_name channel_id channel_name
       content created_at guild_id guild_name is_bot is_command command_type = Inr (ok, db')) \<and>
   (\<exists>ok db'. store_channel_summary eng db now channel_id channel_name date summary_text
       message_count active_users guild_id guild_name metadata = Inr (ok, db')) \<and>
   (\<exists>n. get_message_count eng db = Inr n) \<and>
   (\<exists>n. get_user_message_count eng db user_id = Inr n) \<and>
   (\<exists>ms. get_channel_messages_for_timeframe eng db channel_id start_date end_date = Inr ms) \<and>
   (valid_datetime date \<longrightarrow>
      (\<exists>ms. get_channel_messages_for_day eng db channel_id date = Inr ms)) \<and>
   ((\<exists>end_date. dt_add start_date 604799999999 = Inr end_date) \<longrightarrow>
      (\<exists>ms. get_channel_messages_for_week eng db channel_id start_date = Inr ms)) \<and>
   (\<exists>d. get_messages_for_time_range eng db start_date end_date = Inr d) \<and>
   (\<exists>n db'. delete_messages_older_than eng db cutoff_time = Inr (n, db')) \<and>
   (\<exists>chs. get_active_channels eng db now hours = Inr chs)"
proof (intro conjI impI)
  show "\<exists>ok db'. store_message eng db message_id author_id author_name channel_id channel_name
       content created_at guild_id guild_name is_bot is_command command_type = Inr (ok, db')"
    by (auto simp: store_message_def split: sum.splits)
  show "\<exists>ok db'. store_channel_summary eng db now channel_id channel_name date summary_text
       message_count active_users guild_id guild_name metadata = Inr (ok, db')"
    by (auto simp: store_channel_summary_def split: sum.splits)
  show "\<exists>n. get_message_count eng db = Inr n"
    by (auto simp: get_message_count_def split: sum.splits)
  show "\<exists>n. get_user_message_count eng db user_id = Inr n"
    by (auto simp: get_user_message_count_def split: sum.splits)
  show "\<exists>ms. get_channel_messages_for_timeframe eng db channel_id start_date end_date = Inr ms"
    by (rule timeframe_never_raises)
  show "\<exists>ms. get_channel_messages_for_day eng db channel_id date = Inr ms"
    if "valid_datetime date"
    using that timeframe_never_raises
    by (simp add: get_channel_messages_for_day_def mk_datetime_def valid_datetime_def Let_def)
  show "\<exists>ms. get_channel_messages_for_week eng db channel_id start_date = Inr ms"
    if "\<exists>end_date. dt_add start_date 604799999999 = Inr end_date"
    using that timeframe_never_raises
    by (auto simp: get_channel_messages_for_week_def week_delta)
  show "\<exists>d. get_messages_for_time_range eng db start_date end_date = Inr d"
    by (auto simp: get_messages_for_time_range_def split: sum.splits)
  show "\<exists>n db'. delete_messages_older_than eng db cutoff_time = Inr (n, db')"
    by (auto simp: delete_messages_older_than_def split: sum.splits)
  show "\<exists>chs. get_active_channels eng db now hours = Inr chs"
    by (auto simp: get_active_channels_def split: sum.splits)
qed

theorem failure_gives_sentinel:
  assumes "fault eng = Some err"
  shows "store_message eng db message_id author_id author_name channel_id channel_name
           content created_at guild_id guild_name is_bot is_command command_type
           = Inr (False, db) \<and>
         store_channel_summary eng db now channel_id channel_name date summary_text
           message_count active_users guild_id guild_name metadata = Inr (False, db) \<and>
         get_message_count eng db = Inr 0 \<and>
         get_user_message_count eng db user_id = Inr 0 \<and>
         get_channel_messages_for_timeframe eng db channel_id start_date end_date = Inr [] \<and>
         (valid_datetime date \<longrightarrow> get_channel_messages_for_day eng db channel_id date = Inr []) \<and>
         ((\<exists>end_date. dt_add start_date 604799999999 = Inr end_date) \<longrightarrow>
            get_channel_messages_for_week eng db channel_id start_date = Inr []) \<and>
         get_messages_for_time_range eng db start_date end_date = Inr [] \<and>
         delete_messages_older_than eng db cutoff_time = Inr (0, db) \<and>
         get_active_channels eng db now hours = Inr []"
proof -
  have c: "get_connection eng = Inl err"
    using assms by (simp add: get_connection_simps)
  have tf: "get_channel_messages_for_timeframe eng db channel_id s e = Inr []" for s e
    by (simp add: get_channel_messages_for_timeframe_def
        get_channel_messages_for_timeframe_try_def timedelta_five_hours c bind_err_def
        split: sum.splits)
  have scs: "\<exists>e. store_channel_summary_try eng db now channel_id channel_name date summary_text
           message_count active_users guild_id guild_name metadata = Inl e"
    by (simp add: store_channel_summary_try_def c bind_err_def Let_def split: sum.splits)
  show ?thesis
  proof (intro conjI impI)
    show "store_message eng db message_id author_id author_name channel_id channel_name
           content created_at guild_id guild_name is_bot is_command command_type
           = Inr (False, db)"
      by (simp add: store_message_def store_message_try_def c)
    show "store_channel_summary eng db now channel_id channel_name date summary_text
           message_count active_users guild_id guild_name metadata = Inr (False, db)"
      using scs by (auto simp: store_channel_summary_def)
    show "get_message_count eng db = Inr 0"
      by (simp add: get_message_count_def get_message_count_try_def c)
    show "get_user_message_count eng db user_id = Inr 0"
      by (simp add: get_user_message_count_def get_user_message_count_try_def c)
    show "get_channel_messages_for_timeframe eng db channel_id start_date end_date = Inr []"
      by (rule tf)
    show "get_channel_messages_for_day eng db channel_id date = Inr []" if "valid_datetime date"
      using that
      by (simp add: get_channel_messages_for_day_def mk_datetime_def valid_datetime_def Let_def tf)
    show "get_channel_messages_for_week eng db channel_id start_date = Inr []"
      if "\<exists>end_date. dt_add start_date 604799999999 = Inr end_date"
      using that by (auto simp: get_channel_messages_for_week_def week_delta tf)
    show "get_messages_for_time_range eng db start_date end_date = Inr []"
      by (simp add: get_messages_for_time_range_def get_messages_for_time_range_try_def c Let_def)
    show "delete_messages_older_than eng db cutoff_time = Inr (0, db)"
      by (simp add: delete_messages_older_than_def delete_messages_older_than_try_def c Let_def)
    show "get_active_channels eng db now hours = Inr []"
      by (simp add: get_active_channels_def get_active_channels_try_def c bind_err_def
          split: sum.splits)
  qed
qed

lemma week_after_jan1:
  "dt_add (stamp 2024 1 1 19) 604799999999 =
     Inr \<lparr>year = 2024, month = 1, day = 8, hour = 18, minute = 59, second = 59,
          microsecond = 999999, tzinfo = None\<rparr>"
  by code_simp

theorem operations_never_raise_witness:
  "valid_datetime (stamp 2024 1 1 19) \<and>
   dt_add (stamp 2024 1 1 19) 604799999999 =
     Inr \<lparr>year = 2024, month = 1, day = 8, hour = 18, minute = 59, second = 59,
          microsecond = 999999, tzinfo = None\<rparr> \<and>
   (\<exists>ms. get_channel_messages_for_day engine_down sample_db ''c1'' (stamp 2024 1 1 19) = Inr ms) \<and>
   (\<exists>ms. get_channel_messages_for_week engine_ok sample_db ''c1'' (stamp 2024 1 1 19) = Inr ms)"
  using operations_never_raise [where eng = engine_down and db = sample_db
      and channel_id = "''c1''" and date = "stamp 2024 1 1 19"
      and start_date = "stamp 2024 1 1 19", THEN conjunct2, THEN conjunct2, THEN conjunct2,
      THEN conjunct2, THEN conjunct2, THEN conjunct1]
    operations_never_raise [where eng = engine_ok and db = sample_db
      and channel_id = "''c1''" and date = "stamp 2024 1 1 19"
      and start_date = "stamp 2024 1 1 19", THEN conjunct2, THEN conjunct2, THEN conjunct2,
      THEN conjunct2, THEN conjunct2, THEN conjunct2, THEN conjunct1]
    valid_stamp_jan1 week_after_jan1
  by simp

theorem failure_gives_sentinel_witness:
  "fault engine_down = Some OperationalError \<and>
   valid_datetime (stamp 2024 1 1 19) \<and>
   store_message engine_down sample_db ''m9'' ''u7'' ''bob'' ''c9'' ''random'' ''first''
     (stamp 2024 1 5 9) None None True False None = Inr (False, sample_db) \<and>
   store_channel_summary engine_down sample_db (stamp 2024 1 3 8) ''c1'' ''general''
     (stamp 2024 1 2 0) ''quiet day'' 2 [[97]] None None None = Inr (False, sample_db) \<and>
   get_message_count engine_down sample_db = Inr 0 \<and>
   get_user_message_count engine_down sample_db ''u1'' = Inr 0 \<and>
   get_channel_messages_for_timeframe engine_down sample_db ''c1'' (stamp 2024 1 1 0)
     (stamp 2024 1 2 0) = Inr [] \<and>
   get_channel_messages_for_day engine_down sample_db ''c1'' (stamp 2024 1 1 19) = Inr [] \<and>
   get_channel_messages_for_week engine_down sample_db ''c1'' (stamp 2024 1 1 19) = Inr [] \<and>
   get_messages_for_time_range engine_down sample_db (stamp 2024 1 1 0) (stamp 2024 1 2 0)
     = Inr [] \<and>
   delete_messages_older_than engine_down sample_db (stamp 2024 1 2 0) = Inr (0, sample_db) \<and>
   get_active_channels engine_down sample_db (stamp 2024 1 3 8) 24 = Inr []"
proof -
  have f: "fault engine_down = Some OperationalError"
    by (simp add: engine_down_def)
  show ?thesis
    using failure_gives_sentinel [OF f, where db = sample_db and message_id = "''m9''"
        and author_id = "''u7''" and author_name = "''bob''" and channel_id = "''c9''"
        and channel_name = "''random''" and content = "''first''"
        and created_at = "stamp 2024 1 5 9" and guild_id = None and guild_name = None
        and is_bot = True and is_command = False and command_type = None
        and now = "stamp 2024 1 3 8" and date = "stamp 2024 1 1 19"
        and summary_text = "''quiet day''" and message_count = 2 and active_users = "[[97]]"
        and metadata = None and user_id = "''u1''" and start_date = "stamp 2024 1 1 0"
        and end_date = "stamp 2024 1 2 0" and cutoff_time = "stamp 2024 1 2 0" and hours = 24]
      failure_gives_sentinel [OF f, where db = sample_db and message_id = "''m9''"
        and author_id = "''u7''" and author_name = "''bob''" and channel_id = "''c1''"
        and channel_name = "''general''" and content = "''first''"
        and created_at = "stamp 2024 1 5 9" and guild_id = None and guild_name = None
        and is_bot = True and is_command = False and command_type = None
        and now = "stamp 2024 1 3 8" and date = "stamp 2024 1 2 0"
        and summary_text = "''quiet day''" and message_count = 2 and active_users = "[[97]]"
        and metadata = None and user_id = "''u1''" and start_date = "stamp 2024 1 1 0"
        and end_date = "stamp 2024 1 2 0" and cutoff_time = "stamp 2024 1 2 0" and hours = 24]
      failure_gives_sentinel [OF f, where db = sample_db and message_id = "''m9''"
        and author_id = "''u7''" and author_name = "''bob''" and channel_id = "''c1''"
        and channel_name = "''general''" and content = "''first''"
        and created_at = "stamp 2024 1 5 9" and guild_id = None and guild_name = None
        and is_bot = True and is_command = False and command_type = None
        and now = "stamp 2024 1 3 8" and date = "stamp 2024 1 1 19"
        and summary_text = "''quiet day''" and message_count = 2 and active_users = "[[97]]"
        and metadata = None and user_id = "''u1''" and start_date = "stamp 2024 1 1 19"
        and end_date = "stamp 2024 1 2 0" and cutoff_time = "stamp 2024 1 2 0" and hours = 24]
      f valid_stamp_jan1 week_after_jan1
    by simp
qed

subsection \<open>The store only holds readable timestamps\<close>

lemma digit_val_digit_char: "0 \<le> v \<Longrightarrow> v < 10 \<Longrightarrow> digit_val (digit_char v) = Some v"
  by (simp add: digit_val_def digit_char_def of_char_of Let_def)

lemma parse_digits_append:
  "parse_digits acc (xs @ ys) =
     (case parse_digits acc xs of None \<Rightarrow> None | Some a \<Rightarrow> parse_digits a ys)"
  by (induction xs arbitrary: acc) (auto split: option.splits)

lemma parse_digits_zpad:
  "0 \<le> n \<Longrightarrow> n < 10 ^ k \<Longrightarrow> parse_digits acc (zpad k n) = Some (acc * 10 ^ k + n)"
proof (induction k arbitrary: n acc)
  case 0
  then show ?case by simp
next
  case (Suc k)
  have "n div 10 < m" if "n < 10 * m" for m :: int
    using that by presburger
  with Suc.prems have "0 \<le> n div 10" "n div 10 < 10 ^ k"
    by (simp_all add: pos_imp_zdiv_nonneg_iff)
  then have "parse_digits acc (zpad k (n div 10)) = Some (acc * 10 ^ k + n div 10)"
    by (rule Suc.IH)
  moreover have "0 \<le> n mod 10" "n mod 10 < 10"
    by simp_all
  ultimately show ?case
    by (simp add: parse_digits_append digit_val_digit_char algebra_simps)
qed

lemma length_zpad [simp]: "length (zpad k n) = k"
  by (induction k arbitrary: n) simp_all

lemma parse_num_zpad:
  "0 \<le> n \<Longrightarrow> n < 10 ^ k \<Longrightarrow> parse_num k (zpad k n @ rest) = Some (n, rest)"
  by (simp add: parse_num_def parse_digits_zpad)

lemma expect_head [simp]: "expect c (c # rest) = Some rest"
  by (simp add: expect_def)

lemma skip_char_head [simp]: "skip_char (c # rest) = Some rest"
  by (simp add: skip_char_def)

lemma days_in_month_bounds: "1 \<le> m \<Longrightarrow> m \<le> 12 \<Longrightarrow> days_in_month y m \<le> 31"
proof -
  assume "1 \<le> m" "m \<le> 12"
  then have "m \<in> {1, 2, 3, 4, 5, 6, 7, 8, 9, 10, 11, 12}"
    by (simp; presburger)
  then show ?thesis
    by (auto simp: days_in_month_def DAYS_IN_MONTH_def)
qed

lemma parse_fraction_written:
  assumes "0 \<le> us" "us < 10 ^ 6" "rest = [] \<or> hd rest \<noteq> CHR ''.''"
  shows "parse_fraction ((if us \<noteq> 0 then CHR ''.'' # zpad 6 us else []) @ rest) = Some (us, rest)"
proof (cases "us = 0")
  case True
  with assms(3) show ?thesis
    by (cases rest) (simp_all add: parse_fraction_def)
next
  case False
  then show ?thesis
    using parse_num_zpad [OF assms(1,2), of rest] by (simp add: parse_fraction_def)
qed

lemma offset_parts:
  fixes a :: int
  assumes "0 \<le> a" "a < 86400000000"
  defines "hh \<equiv> a div 3600000000" and "mm \<equiv> a mod 3600000000 div 60000000"
    and "ss \<equiv> a mod 3600000000 mod 60000000 div 1000000"
    and "us \<equiv> a mod 3600000000 mod 60000000 mod 1000000"
  shows "0 \<le> hh" "hh < 10 ^ 2" "0 \<le> mm" "mm < 10 ^ 2" "0 \<le> ss" "ss < 10 ^ 2"
    "0 \<le> us" "us < 10 ^ 6" "((hh * 60 + mm) * 60 + ss) * 1000000 + us = a"
proof -
  define r1 where "r1 = a mod 3600000000"
  define r2 where "r2 = r1 mod 60000000"
  have e1: "a = 3600000000 * hh + r1"
    unfolding hh_def r1_def by simp
  have e2: "r1 = 60000000 * mm + r2"
    unfolding mm_def r2_def r1_def by simp
  have e3: "r2 = 1000000 * ss + us"
    unfolding ss_def us_def r2_def r1_def by simp
  have b1: "0 \<le> r1" "r1 < 3600000000"
    unfolding r1_def by simp_all
  have b2: "0 \<le> r2" "r2 < 60000000"
    unfolding r2_def by simp_all
  have b3: "0 \<le> us" "us < 1000000"
    unfolding us_def by simp_all
  from b3 show "0 \<le> us" "us < 10 ^ 6"
    by simp_all
  from e1 b1 assms(1) show "0 \<le> hh"
    by linarith
  from e1 b1 assms(2) have "hh < 24"
    by linarith
  then show "hh < 10 ^ 2" by simp
  from e2 b1 b2 show "0 \<le> mm"
    by linarith
  from e2 b1 b2 have "mm < 60"
    by linarith
  then show "mm < 10 ^ 2" by simp
  from e3 b2 b3 show "0 \<le> ss"
    by linarith
  from e3 b2 b3 have "ss < 60"
    by linarith
  then show "ss < 10 ^ 2" by simp
  show "((hh * 60 + mm) * 60 + ss) * 1000000 + us = a"
    using e1 e2 e3 by simp
qed


lemma parse_offset_written:
  assumes hh: "0 \<le> hh" "hh < 10 ^ 2" and mm: "0 \<le> mm" "mm < 10 ^ 2"
    and ss: "0 \<le> ss" "ss < 10 ^ 2" and us: "0 \<le> us" "us < 10 ^ 6"
  shows "parse_offset
           (zpad 2 hh @ CHR '':'' # zpad 2 mm @
            (if ss \<noteq> 0 \<or> us \<noteq> 0
             then CHR '':'' # zpad 2 ss @ (if us \<noteq> 0 then CHR ''.'' # zpad 6 us else [])
             else []))
         = Some (((hh * 60 + mm) * 60 + ss) * 1000000 + us)"
proof (cases "ss \<noteq> 0 \<or> us \<noteq> 0")
  case False
  then have z: "ss = 0" "us = 0" by simp_all
  have "parse_offset (zpad 2 hh @ CHR '':'' # zpad 2 mm @ [])
      = Some ((hh * 60 + mm) * 60 * 1000000)"
    unfolding parse_offset_def
    by (simp only: parse_num_zpad [OF hh] parse_num_zpad [OF mm] Option.bind.simps prod.case
        expect_head) simp
  with z show ?thesis by simp
next
  case True
  have f: "parse_fraction ((if us \<noteq> 0 then CHR ''.'' # zpad 6 us else []) @ [])
      = Some (us, [])"
    using us by (intro parse_fraction_written) simp_all
  have "parse_offset
      (zpad 2 hh @ CHR '':'' # zpad 2 mm @ CHR '':'' # zpad 2 ss @
       ((if us \<noteq> 0 then CHR ''.'' # zpad 6 us else []) @ []))
      = Some (((hh * 60 + mm) * 60 + ss) * 1000000 + us)"
    unfolding parse_offset_def
    by (simp only: parse_num_zpad [OF hh] parse_num_zpad [OF mm] parse_num_zpad [OF ss] f
        Option.bind.simps prod.case expect_head list.simps if_False) simp
  with True show ?thesis by simp
qed

lemma parse_tz_format_offset:
  assumes "case tz of None \<Rightarrow> True | Some off \<Rightarrow> - US_PER_DAY < off \<and> off < US_PER_DAY"
  shows "parse_tz (format_offset tz) = Some tz"
proof (cases tz)
  case None
  then show ?thesis by (simp add: parse_tz_def format_offset_def)
next
  case (Some off)
  define a where "a = \<bar>off\<bar>"
  from assms Some have a: "0 \<le> a" "a < 86400000000"
    by (auto simp: a_def US_PER_DAY_def)
  note p = offset_parts [OF a]
  define w where "w =
           zpad 2 (a div 3600000000) @ CHR '':'' # zpad 2 (a mod 3600000000 div 60000000) @
            (if a mod 3600000000 mod 60000000 div 1000000 \<noteq> 0 \<or>
                a mod 3600000000 mod 60000000 mod 1000000 \<noteq> 0
             then CHR '':'' # zpad 2 (a mod 3600000000 mod 60000000 div 1000000) @
                  (if a mod 3600000000 mod 60000000 mod 1000000 \<noteq> 0
                   then CHR ''.'' # zpad 6 (a mod 3600000000 mod 60000000 mod 1000000) else [])
             else [])"
  have po: "parse_offset w = Some a"
    unfolding w_def parse_offset_written [OF p(1-8)] p(9) ..
  have fo: "format_offset (Some off) = (if off < 0 then CHR ''-'' else CHR ''+'') # w"
    unfolding format_offset_def a_def w_def Let_def by simp
  have "parse_tz (format_offset (Some off)) = Some (Some (if off < 0 then - a else a))"
    unfolding fo parse_tz_def using a(2)
    by (simp add: po US_PER_DAY_def)
  also have "(if off < 0 then - a else a) = off"
    by (simp add: a_def)
  finally show ?thesis
    using Some by simp
qed

lemma format_offset_head: "format_offset tz = [] \<or> hd (format_offset tz) \<noteq> CHR ''.''"
  by (cases tz) (simp_all add: format_offset_def Let_def)

lemma parse_iso_isoformat:
  assumes "valid_datetime d"
  shows "parse_iso (isoformat d)
         = Some (year d, month d, day d, hour d, minute d, second d, microsecond d, tzinfo d)"
proof -
  from assms have y: "0 \<le> year d" "year d < 10 ^ 4" and m: "0 \<le> month d" "month d < 10 ^ 2"
    and hh: "0 \<le> hour d" "hour d < 10 ^ 2" and mi: "0 \<le> minute d" "minute d < 10 ^ 2"
    and ss: "0 \<le> second d" "second d < 10 ^ 2"
    and us: "0 \<le> microsecond d" "microsecond d < 10 ^ 6"
    by (simp_all add: valid_datetime_def MINYEAR_def MAXYEAR_def)
  from assms have "day d \<le> days_in_month (year d) (month d)" "1 \<le> month d" "month d \<le> 12"
    "1 \<le> day d"
    by (simp_all add: valid_datetime_def)
  with days_in_month_bounds [of "month d" "year d"] have dd: "0 \<le> day d" "day d < 10 ^ 2"
    by simp_all
  from assms have tz: "parse_tz (format_offset (tzinfo d)) = Some (tzinfo d)"
    by (intro parse_tz_format_offset) (simp add: valid_datetime_def)
  have f: "parse_fraction
      ((if microsecond d \<noteq> 0 then CHR ''.'' # zpad 6 (microsecond d) else []) @
       format_offset (tzinfo d)) = Some (microsecond d, format_offset (tzinfo d))"
    using us format_offset_head by (rule parse_fraction_written)
  note p = parse_num_zpad [OF y] parse_num_zpad [OF m] parse_num_zpad [OF dd]
    parse_num_zpad [OF hh] parse_num_zpad [OF mi] parse_num_zpad [OF ss]
  have "parse_iso
      (zpad 4 (year d) @ CHR ''-'' # zpad 2 (month d) @ CHR ''-'' # zpad 2 (day d) @
       CHR ''T'' # zpad 2 (hour d) @ CHR '':'' # zpad 2 (minute d) @ CHR '':'' #
       zpad 2 (second d) @
       ((if microsecond d \<noteq> 0 then CHR ''.'' # zpad 6 (microsecond d) else []) @
        format_offset (tzinfo d)))
      = Some (year d, month d, day d, hour d, minute d, second d, microsecond d, tzinfo d)"
    unfolding parse_iso_def
    by (simp only: p f tz Option.bind.simps prod.case expect_head skip_char_head)
  then show ?thesis
    by (cases "microsecond d = 0") (simp_all add: isoformat_def)
qed

lemma isoformat_readable:
  assumes "valid_datetime d"
  shows "fromisoformat (isoformat d) = Inr d"
  using assms
  by (cases d) (simp add: fromisoformat_def parse_iso_isoformat mk_datetime_def Let_def)

text \<open>
  \<open>fromisoformat\<close> reads back what \<open>isoformat\<close> writes, for naive and for aware
  datetimes, so \<open>store_message\<close> and \<open>delete_messages_older_than\<close> keep every
  \<open>created_at\<close> of the store readable.
\<close>

theorem fromisoformat_isoformat:
  assumes "valid_datetime d"
  shows "fromisoformat (isoformat d) = Inr d"
  using assms by (rule isoformat_readable)

lemma valid_aware_jan1: "valid_datetime (replace_tzinfo (stamp 2024 1 1 19) 0)"
  by code_simp

lemma isoformat_aware_jan1:
  "isoformat (replace_tzinfo (stamp 2024 1 1 19) 0) = ''2024-01-01T19:00:00+00:00''"
  by code_simp

theorem fromisoformat_isoformat_witness:
  "valid_datetime (replace_tzinfo (stamp 2024 1 1 19) 0) \<and>
   fromisoformat ''2024-01-01T19:00:00+00:00'' = Inr (replace_tzinfo (stamp 2024 1 1 19) 0) \<and>
   isoformat (replace_tzinfo (stamp 2024 1 1 19) 0) = ''2024-01-01T19:00:00+00:00''"
  using fromisoformat_isoformat [OF valid_aware_jan1] valid_aware_jan1
  by (simp add: isoformat_aware_jan1)

text \<open>
  Offsets of either sign, with seconds and microseconds, and a naive datetime with
  microseconds, written and read back.
\<close>

lemma isoformat_samples:
  "isoformat (replace_tzinfo (stamp 2024 1 1 19) (- 18000000000)) = ''2024-01-01T19:00:00-05:00''"
  "isoformat (replace_tzinfo (stamp 2024 1 1 19) 19800000000) = ''2024-01-01T19:00:00+05:30''"
  "isoformat (replace_tzinfo (stamp 2024 1 1 19) (- 3661000001)) = ''2024-01-01T19:00:00-01:01:01.000001''"
  "isoformat (replace_tzinfo ((stamp 987 6 5 4)\<lparr>microsecond := 30\<rparr>) 7000000)
   = ''0987-06-05T04:00:00.000030+00:00:07''"
  "isoformat ((stamp 2024 1 1 19)\<lparr>minute := 7, second := 8, microsecond := 90\<rparr>)
   = ''2024-01-01T19:07:08.000090''"
  by code_simp+

lemma fromisoformat_samples:
  "fromisoformat ''2024-01-01T19:00:00-05:00''
   = Inr (replace_tzinfo (stamp 2024 1 1 19) (- 18000000000))"
  "fromisoformat ''2024-01-01T19:00:00-01:01:01.000001''
   = Inr (replace_tzinfo (stamp 2024 1 1 19) (- 3661000001))"
  "fromisoformat ''0987-06-05T04:00:00.000030+00:00:07''
   = Inr (replace_tzinfo ((stamp 987 6 5 4)\<lparr>microsecond := 30\<rparr>) 7000000)"
  "fromisoformat ''2024-01-01 19:07:08.000090''
   = Inr ((stamp 2024 1 1 19)\<lparr>minute := 7, second := 8, microsecond := 90\<rparr>)"
  "fromisoformat ''2024-01-01T19:00:00+24:00'' = Inl ValueError"
  "fromisoformat ''2024-02-30T19:00:00'' = Inl ValueError"
  "fromisoformat ''yesterday'' = Inl ValueError"
  by code_simp+

text \<open>
  The store \<open>varied_db\<close> is what six calls of \<open>store_message\<close> leave in an empty store.
\<close>

lemma varied_db_written:
  "bind_err (store_message engine_ok empty_db ''v1'' ''u2'' ''bot'' ''c2'' ''dev-2'' ''/sum-day''
       (replace_tzinfo ((stamp 2024 1 1 9)\<lparr>minute := 30, microsecond := 250000\<rparr>) 0)
       (Some ''g1'') (Some ''guild-2'') True True (Some ''sum-day'')) (\<lambda>(ok1, db1).
   bind_err (store_message engine_ok db1 ''v2'' ''u1'' ''ann'' ''c2'' ''dev'' ''hello''
       (replace_tzinfo (stamp 2024 1 1 3) 0) (Some ''g1'') (Some ''guild'') False False None)
     (\<lambda>(ok2, db2).
   bind_err (store_message engine_ok db2 ''v3'' ''u3'' ''cy'' ''c1'' ''general'' ''/bye''
       (stamp 2024 1 1 3) None None False True (Some ''bye'')) (\<lambda>(ok3, db3).
   bind_err (store_message engine_ok db3 ''v4'' ''u1'' ''ann'' ''c2'' ''dev'' ''late''
       (replace_tzinfo (stamp 2024 1 2 0) 0) (Some ''g1'') (Some ''guild'') False False None)
     (\<lambda>(ok4, db4).
   bind_err (store_message engine_ok db4 ''v5'' ''u3'' ''cy'' ''c1'' ''general'' ''early''
       (replace_tzinfo (stamp 2023 12 31 21) 0) None None False False None) (\<lambda>(ok5, db5).
   bind_err (store_message engine_ok db5 ''v6'' ''u3'' ''cy'' ''c2'' ''dev'' ''ping''
       (stamp 2024 1 1 5) (Some ''g1'') (Some ''guild'') True False None) (\<lambda>(ok6, db6).
     Inr ([ok1, ok2, ok3, ok4, ok5, ok6], db6)))))))
   = Inr ([True, True, True, True, True, True], varied_db)"
  by code_simp

theorem writers_keep_store_parseable:
  assumes "parseable_db db"
  shows "(valid_datetime created_at \<and>
          store_message eng db message_id author_id author_name channel_id channel_name content
            created_at guild_id guild_name is_bot is_command command_type = Inr (ok, dba)
          \<longrightarrow> parseable_db dba) \<and>
         (delete_messages_older_than eng db cutoff_time = Inr (n, dbb) \<longrightarrow> parseable_db dbb) \<and>
         (store_channel_summary eng db now channel_id channel_name date summary_text
            message_count active_users guild_id guild_name metadata = Inr (okc, dbc)
          \<longrightarrow> parseable_db dbc)"
proof (intro conjI impI)
  assume "valid_datetime created_at \<and>
          store_message eng db message_id author_id author_name channel_id channel_name content
            created_at guild_id guild_name is_bot is_command command_type = Inr (ok, dba)"
  then show "parseable_db dba"
    using assms
    by (auto simp: store_message_def store_message_try_def insert_message_def bind_err_def
        parseable_db_def isoformat_readable split: sum.splits if_splits)
next
  assume "delete_messages_older_than eng db cutoff_time = Inr (n, dbb)"
  then show "parseable_db dbb"
    using assms
    by (auto simp: delete_messages_older_than_def delete_messages_older_than_try_def
        bind_err_def Let_def parseable_db_def split: sum.splits)
next
  assume "store_channel_summary eng db now channel_id channel_name date summary_text
            message_count active_users guild_id guild_name metadata = Inr (okc, dbc)"
  then show "parseable_db dbc"
    using assms
    by (auto simp: store_channel_summary_def store_channel_summary_try_def
        insert_channel_summary_def bind_err_def Let_def parseable_db_def
        split: sum.splits if_splits)
qed

theorem writers_keep_store_parseable_witness:
  "parseable_db varied_db \<and> valid_datetime (replace_tzinfo (stamp 2024 1 1 19) 0) \<and>
   (\<exists>db1. store_message engine_ok varied_db ''m9'' ''u7'' ''bob'' ''c9'' ''random'' ''first''
            (replace_tzinfo (stamp 2024 1 1 19) 0) None None True False None = Inr (True, db1) \<and>
          m_created_at (last (messages db1)) = ''2024-01-01T19:00:00+00:00'' \<and>
          parseable_db db1) \<and>
   (\<exists>n db2. delete_messages_older_than engine_ok varied_db (stamp 2024 1 2 0) = Inr (n, db2) \<and>
            parseable_db db2) \<and>
   (\<exists>db3. store_channel_summary engine_ok sample_db (stamp 2024 1 3 8) ''c1'' ''general''
            (stamp 2024 1 2 0) ''quiet day'' 2 [[97, 110, 110], [98, 111, 98]] None None
            (Some []) = Inr (True, db3) \<and>
          parseable_db db3)"
proof -
  obtain db1 where s: "store_message engine_ok varied_db ''m9'' ''u7'' ''bob'' ''c9'' ''random''
      ''first'' (replace_tzinfo (stamp 2024 1 1 19) 0) None None True False None
      = Inr (True, db1)"
    and t: "m_created_at (last (messages db1)) = ''2024-01-01T19:00:00+00:00''"
    by (simp add: store_message_def store_message_try_def get_connection_simps
        insert_message_def engine_ok_def varied_db_def isoformat_aware_jan1)
  obtain n db2 where d: "delete_messages_older_than engine_ok varied_db (stamp 2024 1 2 0)
      = Inr (n, db2)"
    by (simp add: delete_messages_older_than_def delete_messages_older_than_try_def
        get_connection_simps engine_ok_def Let_def)
  obtain db3 where c: "store_channel_summary engine_ok sample_db (stamp 2024 1 3 8) ''c1''
      ''general'' (stamp 2024 1 2 0) ''quiet day'' 2 [[97, 110, 110], [98, 111, 98]] None None
      (Some []) = Inr (True, db3)"
    using sample_summary_stored by blast
  have "parseable_db db1"
    using writers_keep_store_parseable [OF parseable_varied_db,
        where created_at = "replace_tzinfo (stamp 2024 1 1 19) 0" and eng = engine_ok
        and message_id = "''m9''"
        and author_id = "''u7''" and author_name = "''bob''" and channel_id = "''c9''"
        and channel_name = "''random''" and content = "''first''" and guild_id = None
        and guild_name = None and is_bot = True and is_command = False and command_type = None
        and ok = True and dba = db1, THEN conjunct1]
      s valid_aware_jan1
    by simp
  moreover have "parseable_db db2"
    using writers_keep_store_parseable [OF parseable_varied_db,
        where eng = engine_ok and cutoff_time = "stamp 2024 1 2 0" and n = n and dbb = db2,
        THEN conjunct2, THEN conjunct1]
      d
    by simp
  moreover have "parseable_db db3"
    using writers_keep_store_parseable [OF parseable_sample_db,
        where eng = engine_ok and channel_id = "''c1''" and channel_name = "''general''"
        and guild_id = None and guild_name = None and now = "stamp 2024 1 3 8"
        and date = "stamp 2024 1 2 0" and summary_text = "''quiet day''" and message_count = 2
        and active_users = "[[97, 110, 110], [98, 111, 98]]" and metadata = "Some []"
        and okc = True and dbc = db3, THEN conjunct2, THEN conjunct2]
      c
    by simp
  ultimately show ?thesis
    using s t d c valid_aware_jan1 parseable_varied_db by blast
qed

subsection \<open>Text order and time order\<close>

lemma append_less_same_length:
  "length xs = length ys \<Longrightarrow> (xs @ us < ys @ vs) = (xs < ys \<or> xs = ys \<and> us < vs)"
  by (induction xs ys rule: list_induct2) auto

lemma append_le_same_length:
  "length xs = length ys \<Longrightarrow> (xs @ us \<le> ys @ vs) = (xs < ys \<or> xs = ys \<and> us \<le> vs)"
  by (induction xs ys rule: list_induct2) auto

lemma digit_char_less:
  assumes "0 \<le> u" "u < 10" "0 \<le> v" "v < 10"
  shows "(digit_char u < digit_char v) = (u < v)"
proof -
  have "(digit_char u < digit_char v) =
      (int (of_char (digit_char u)) < int (of_char (digit_char v)))"
    by (simp add: less_char_def)
  also have "\<dots> = ((of_char (digit_char u) :: int) < of_char (digit_char v))"
    by (simp only: of_nat_of_char)
  also have "\<dots> = (u < v)"
    using assms by (simp add: digit_char_def of_char_of)
  finally show ?thesis .
qed

lemma decimal_less:
  fixes x y r s :: int
  assumes "0 \<le> r" "r < 10" "0 \<le> s" "s < 10"
  shows "(10 * x + r < 10 * y + s) = (x < y \<or> x = y \<and> r < s)"
  using assms by auto

lemma zpad_less:
  "0 \<le> a \<Longrightarrow> a < 10 ^ k \<Longrightarrow> 0 \<le> b \<Longrightarrow> b < 10 ^ k \<Longrightarrow> (zpad k a < zpad k b) = (a < b)"
proof (induction k arbitrary: a b)
  case 0
  then show ?case by simp
next
  case (Suc k)
  have d: "n div 10 < m" if "n < 10 * m" for n m :: int
    using that by presburger
  from Suc.prems have a: "0 \<le> a div 10" "a div 10 < 10 ^ k"
    and b: "0 \<le> b div 10" "b div 10 < 10 ^ k"
    by (simp_all add: pos_imp_zdiv_nonneg_iff d)
  have lt: "(zpad k (a div 10) < zpad k (b div 10)) = (a div 10 < b div 10)"
    using a b by (rule Suc.IH)
  have gt: "(zpad k (b div 10) < zpad k (a div 10)) = (b div 10 < a div 10)"
    using b a by (rule Suc.IH)
  have eq: "(zpad k (a div 10) = zpad k (b div 10)) = (a div 10 = b div 10)"
    using lt gt by (metis less_irrefl linorder_neqE_linordered_idom)
  have dg: "(digit_char (a mod 10) < digit_char (b mod 10)) = (a mod 10 < b mod 10)"
    by (intro digit_char_less) simp_all
  have "(10 * (a div 10) + a mod 10 < 10 * (b div 10) + b mod 10) =
      (a div 10 < b div 10 \<or> a div 10 = b div 10 \<and> a mod 10 < b mod 10)"
    by (rule decimal_less) simp_all
  then have "(a < b) = (a div 10 < b div 10 \<or> a div 10 = b div 10 \<and> a mod 10 < b mod 10)"
    by simp
  then show ?case
    by (simp add: append_less_same_length lt eq dg)
qed

lemma zpad_eq:
  assumes "0 \<le> a" "a < 10 ^ k" "0 \<le> b" "b < 10 ^ k"
  shows "(zpad k a = zpad k b) = (a = b)"
  using zpad_less [OF assms] zpad_less [OF assms(3,4,1,2)]
  by (metis less_irrefl linorder_neqE_linordered_idom)

lemma zpad_le:
  assumes "0 \<le> a" "a < 10 ^ k" "0 \<le> b" "b < 10 ^ k"
  shows "(zpad k a \<le> zpad k b) = (a \<le> b)"
  using zpad_less [OF assms] zpad_eq [OF assms] by (auto simp: le_less)

lemma format_offset_head_less:
  "format_offset tz = [] \<or> hd (format_offset tz) < CHR ''.''"
  by (cases tz) (simp_all add: format_offset_def Let_def less_char_def)

lemma micro_suffix_le:
  assumes "0 \<le> a" "a < 10 ^ 6" "0 \<le> b" "b < 10 ^ 6" and fo: "fo = [] \<or> hd fo < CHR ''.''"
  shows "((if a \<noteq> 0 then CHR ''.'' # zpad 6 a else []) @ fo \<le>
          (if b \<noteq> 0 then CHR ''.'' # zpad 6 b else []) @ fo) = (a \<le> b)"
proof (cases fo)
  case Nil
  then show ?thesis
    using assms(1,3) zpad_le [OF assms(1-4)] by auto
next
  case (Cons c w)
  with fo have c: "c < CHR ''.''"
    by simp
  then have nc: "\<not> CHR ''.'' < c" "CHR ''.'' \<noteq> c"
    by auto
  have "(zpad 6 a @ fo \<le> zpad 6 b @ fo) = (a \<le> b)"
    using zpad_less [OF assms(1-4)] zpad_eq [OF assms(1-4)]
    by (auto simp: append_le_same_length)
  then show ?thesis
    using assms(1,3) c nc Cons by auto
qed

lemma valid_datetime_digits:
  assumes "valid_datetime d"
  shows "0 \<le> year d" "year d < 10 ^ 4" "0 \<le> month d" "month d < 10 ^ 2"
    "0 \<le> day d" "day d < 10 ^ 2" "0 \<le> hour d" "hour d < 10 ^ 2"
    "0 \<le> minute d" "minute d < 10 ^ 2" "0 \<le> second d" "second d < 10 ^ 2"
    "0 \<le> microsecond d" "microsecond d < 10 ^ 6"
proof -
  from assms have "day d \<le> days_in_month (year d) (month d)" "1 \<le> month d" "month d \<le> 12"
    "1 \<le> day d"
    by (simp_all add: valid_datetime_def)
  with days_in_month_bounds [of "month d" "year d"] show "0 \<le> day d" "day d < 10 ^ 2"
    by simp_all
  from assms show "0 \<le> year d" "year d < 10 ^ 4" "0 \<le> month d" "month d < 10 ^ 2"
    "0 \<le> hour d" "hour d < 10 ^ 2"
    "0 \<le> minute d" "minute d < 10 ^ 2" "0 \<le> second d" "second d < 10 ^ 2"
    "0 \<le> microsecond d" "microsecond d < 10 ^ 6"
    by (simp_all add: valid_datetime_def MINYEAR_def MAXYEAR_def)
qed

text \<open>
  On datetimes that Python can hold and that are naive or of one zone, the order of the
  ISO texts, which is the order the engine uses in \<^verbatim>\<open>BETWEEN\<close>, \<^verbatim>\<open><\<close>, \<^verbatim>\<open>>=\<close> and
  \<^verbatim>\<open>ORDER BY\<close>, is the order of the datetimes themselves.
\<close>

theorem isoformat_order:
  assumes "valid_datetime d1" and "valid_datetime d2" and "tzinfo d1 = tzinfo d2"
  shows "(isoformat d1 \<le> isoformat d2) = (dt_tuple d1 \<le> dt_tuple d2)"
proof -
  note a = valid_datetime_digits [OF assms(1)]
  note b = valid_datetime_digits [OF assms(2)]
  define fo where "fo = format_offset (tzinfo d1)"
  have e1: "isoformat d1 =
      zpad 4 (year d1) @ CHR ''-'' # zpad 2 (month d1) @ CHR ''-'' # zpad 2 (day d1) @
      CHR ''T'' # zpad 2 (hour d1) @ CHR '':'' # zpad 2 (minute d1) @ CHR '':'' #
      zpad 2 (second d1) @
      ((if microsecond d1 \<noteq> 0 then CHR ''.'' # zpad 6 (microsecond d1) else []) @ fo)"
    by (simp add: isoformat_def fo_def)
  have e2: "isoformat d2 =
      zpad 4 (year d2) @ CHR ''-'' # zpad 2 (month d2) @ CHR ''-'' # zpad 2 (day d2) @
      CHR ''T'' # zpad 2 (hour d2) @ CHR '':'' # zpad 2 (minute d2) @ CHR '':'' #
      zpad 2 (second d2) @
      ((if microsecond d2 \<noteq> 0 then CHR ''.'' # zpad 6 (microsecond d2) else []) @ fo)"
    by (simp add: isoformat_def fo_def assms(3))
  have y: "(zpad 4 (year d1) < zpad 4 (year d2)) = (year d1 < year d2)"
    "(zpad 4 (year d1) = zpad 4 (year d2)) = (year d1 = year d2)"
    using a b by (simp_all add: zpad_less zpad_eq)
  have m: "(zpad 2 (month d1) < zpad 2 (month d2)) = (month d1 < month d2)"
    "(zpad 2 (month d1) = zpad 2 (month d2)) = (month d1 = month d2)"
    using a b by (simp_all add: zpad_less zpad_eq)
  have d: "(zpad 2 (day d1) < zpad 2 (day d2)) = (day d1 < day d2)"
    "(zpad 2 (day d1) = zpad 2 (day d2)) = (day d1 = day d2)"
    using a b by (simp_all add: zpad_less zpad_eq)
  have h: "(zpad 2 (hour d1) < zpad 2 (hour d2)) = (hour d1 < hour d2)"
    "(zpad 2 (hour d1) = zpad 2 (hour d2)) = (hour d1 = hour d2)"
    using a b by (simp_all add: zpad_less zpad_eq)
  have mi: "(zpad 2 (minute d1) < zpad 2 (minute d2)) = (minute d1 < minute d2)"
    "(zpad 2 (minute d1) = zpad 2 (minute d2)) = (minute d1 = minute d2)"
    using a b by (simp_all add: zpad_less zpad_eq)
  have s: "(zpad 2 (second d1) < zpad 2 (second d2)) = (second d1 < second d2)"
    "(zpad 2 (second d1) = zpad 2 (second d2)) = (second d1 = second d2)"
    using a b by (simp_all add: zpad_less zpad_eq)
  have u: "((if microsecond d1 \<noteq> 0 then CHR ''.'' # zpad 6 (microsecond d1) else []) @ fo \<le>
            (if microsecond d2 \<noteq> 0 then CHR ''.'' # zpad 6 (microsecond d2) else []) @ fo)
           = (microsecond d1 \<le> microsecond d2)"
    using a(13,14) b(13,14) format_offset_head_less [of "tzinfo d1"] unfolding fo_def
    by (rule micro_suffix_le)
  have "(isoformat d1 \<le> isoformat d2) =
      (year d1 < year d2 \<or> year d1 = year d2 \<and>
       (month d1 < month d2 \<or> month d1 = month d2 \<and>
        (day d1 < day d2 \<or> day d1 = day d2 \<and>
         (hour d1 < hour d2 \<or> hour d1 = hour d2 \<and>
          (minute d1 < minute d2 \<or> minute d1 = minute d2 \<and>
           (second d1 < second d2 \<or> second d1 = second d2 \<and>
            microsecond d1 \<le> microsecond d2))))))"
    unfolding e1 e2
    by (simp only: append_le_same_length length_zpad Cons_le_Cons
        y m d h mi s u simp_thms less_irrefl)
  also have "\<dots> = (dt_tuple d1 \<le> dt_tuple d2)"
    unfolding dt_tuple_def less_eq_prod_simp by auto
  finally show ?thesis .
qed

lemma valid_aware_dec26: "valid_datetime (replace_tzinfo (stamp 9999 12 26 0) 0)"
  by code_simp

theorem isoformat_order_witness:
  "valid_datetime (replace_tzinfo (stamp 2024 1 1 19) 0) \<and>
   valid_datetime (replace_tzinfo (stamp 9999 12 26 0) 0) \<and>
   tzinfo (replace_tzinfo (stamp 2024 1 1 19) 0) = tzinfo (replace_tzinfo (stamp 9999 12 26 0) 0) \<and>
   isoformat (replace_tzinfo (stamp 2024 1 1 19) 0)
     \<le> isoformat (replace_tzinfo (stamp 9999 12 26 0) 0) \<and>
   dt_tuple (replace_tzinfo (stamp 2024 1 1 19) 0)
     \<le> dt_tuple (replace_tzinfo (stamp 9999 12 26 0) 0)"
proof -
  have t: "tzinfo (replace_tzinfo (stamp 2024 1 1 19) 0)
      = tzinfo (replace_tzinfo (stamp 9999 12 26 0) 0)"
    by (simp add: replace_tzinfo_def)
  have "dt_tuple (replace_tzinfo (stamp 2024 1 1 19) 0)
      \<le> dt_tuple (replace_tzinfo (stamp 9999 12 26 0) 0)"
    by (simp add: dt_tuple_def stamp_def replace_tzinfo_def)
  with isoformat_order [OF valid_aware_jan1 valid_aware_dec26 t] valid_aware_jan1
    valid_aware_dec26 t
  show ?thesis
    by simp
qed

end
